theory Spec2Isabelle
  imports Main
begin

section \<open>Python values and strings\<close>

text \<open>
  A Python \<open>str\<close> is modelled as an Isabelle \<open>string\<close>: every \<open>char\<close> stands for
  the code point with the same number, so the model covers the strings over the code
  points 0..255 (ASCII and Latin-1). The string methods below are the Python ones
  restricted to that range.

  The validators are called with values that need not be strings (they test
  \<open>isinstance(x, str)\<close> and \<open>x is None\<close>), hence a small universe of Python values.
\<close>

datatype pyval = PyNone | PyStr string | PyBool bool

text \<open>\<open>str(x)\<close>\<close>

fun py_str :: "pyval \<Rightarrow> string" where
  "py_str PyNone = ''None''"
| "py_str (PyStr s) = s"
| "py_str (PyBool b) = (if b then ''True'' else ''False'')"

text \<open>\<open>str(i)\<close> for an integer: its decimal digits, with a sign when negative.\<close>

fun str_nat :: "nat \<Rightarrow> string" where
  "str_nat n = (if n < 10 then [char_of (48 + n)]
                else str_nat (n div 10) @ [char_of (48 + n mod 10)])"

declare str_nat.simps [simp del]

definition py_str_int :: "int \<Rightarrow> string" where
  "py_str_int i = (if i < 0 then CHR ''-'' # str_nat (nat (- i)) else str_nat (nat i))"

text \<open>Truth value of \<open>x\<close> in \<open>not x\<close> and \<open>if x\<close>.\<close>

fun truthy :: "pyval \<Rightarrow> bool" where
  "truthy PyNone = False"
| "truthy (PyStr s) = (s \<noteq> [])"
| "truthy (PyBool b) = b"

text \<open>\<open>isinstance(x, str)\<close>\<close>

fun isinstance_str :: "pyval \<Rightarrow> bool" where
  "isinstance_str (PyStr s) = True"
| "isinstance_str PyNone = False"
| "isinstance_str (PyBool b) = False"

definition ord :: "char \<Rightarrow> nat" where
  "ord c = of_char c"

text \<open>
  \<open>str.isspace\<close> on one character: TAB, LF, VT, FF, CR, the separators FS, GS, RS, US,
  SPACE, NEL and the no-break space. It is also the class \<open>\s\<close> of \<open>re\<close> on
  \<open>str\<close> patterns.
\<close>

definition py_isspace :: "char \<Rightarrow> bool" where
  "py_isspace c = (let n = ord c in
     (9 \<le> n \<and> n \<le> 13) \<or> (28 \<le> n \<and> n \<le> 32) \<or> n = 133 \<or> n = 160)"

text \<open>\<open>s.strip()\<close>: leading and trailing whitespace removed.\<close>

definition py_strip :: "string \<Rightarrow> string" where
  "py_strip s = rev (dropWhile py_isspace (rev (dropWhile py_isspace s)))"

text \<open>
  \<open>s.lower()\<close>: \<open>A\<close>..\<open>Z\<close> and the Latin-1 capitals 192..222 (without the
  multiplication sign 215) move up by 32; every other character stays.
\<close>

definition py_isupper :: "char \<Rightarrow> bool" where
  "py_isupper c = (let n = ord c in
     (65 \<le> n \<and> n \<le> 90) \<or> (192 \<le> n \<and> n \<le> 222 \<and> n \<noteq> 215))"

definition py_lower_char :: "char \<Rightarrow> char" where
  "py_lower_char c = (if py_isupper c then char_of (ord c + 32) else c)"

definition py_lower :: "string \<Rightarrow> string" where
  "py_lower s = map py_lower_char s"

text \<open>
  \<open>s.isdigit()\<close>: false on the empty string, otherwise every character is a digit:
  \<open>0\<close>..\<open>9\<close> or one of the superscripts two, three and one (178, 179, 185).
\<close>

definition py_isdigit_char :: "char \<Rightarrow> bool" where
  "py_isdigit_char c = (let n = ord c in
     (48 \<le> n \<and> n \<le> 57) \<or> n = 178 \<or> n = 179 \<or> n = 185)"

definition py_isdigit :: "string \<Rightarrow> bool" where
  "py_isdigit s = (s \<noteq> [] \<and> list_all py_isdigit_char s)"

text \<open>\<open>s.startswith(p)\<close>, \<open>s.endswith(p)\<close> and \<open>p in s\<close>.\<close>

fun py_startswith :: "string \<Rightarrow> string \<Rightarrow> bool" where
  "py_startswith s [] = True"
| "py_startswith [] (p # ps) = False"
| "py_startswith (c # cs) (p # ps) = (c = p \<and> py_startswith cs ps)"

definition py_endswith :: "string \<Rightarrow> string \<Rightarrow> bool" where
  "py_endswith s p = py_startswith (rev s) (rev p)"

fun py_in :: "string \<Rightarrow> string \<Rightarrow> bool" where
  "py_in p [] = (p = [])"
| "py_in p (c # cs) = (py_startswith (c # cs) p \<or> py_in p cs)"

subsection \<open>The regular expressions of the validators\<close>

text \<open>
  Each pattern is written with matchers in continuation style: a matcher takes what has
  to match the rest of the input. \<open>re_plus p k\<close> is \<open>[p]+\<close> followed by \<open>k\<close>, tried
  at every length as the backtracking of \<open>re\<close> does; \<open>re_dollar\<close> is \<open>$\<close>, which
  matches at the end of the string and before a newline that ends the string.
\<close>

fun re_class :: "(char \<Rightarrow> bool) \<Rightarrow> (string \<Rightarrow> bool) \<Rightarrow> string \<Rightarrow> bool" where
  "re_class p k [] = False"
| "re_class p k (c # cs) = (p c \<and> k cs)"

fun re_plus :: "(char \<Rightarrow> bool) \<Rightarrow> (string \<Rightarrow> bool) \<Rightarrow> string \<Rightarrow> bool" where
  "re_plus p k [] = False"
| "re_plus p k (c # cs) = (p c \<and> (re_plus p k cs \<or> k cs))"

definition re_star :: "(char \<Rightarrow> bool) \<Rightarrow> (string \<Rightarrow> bool) \<Rightarrow> string \<Rightarrow> bool" where
  "re_star p k s = (re_plus p k s \<or> k s)"

definition re_dollar :: "string \<Rightarrow> bool" where
  "re_dollar s = (s = [] \<or> s = [CHR 0x0A])"

definition is_alpha :: "char \<Rightarrow> bool" where
  "is_alpha c = (let n = ord c in (97 \<le> n \<and> n \<le> 122) \<or> (65 \<le> n \<and> n \<le> 90))"

definition is_alnum :: "char \<Rightarrow> bool" where
  "is_alnum c = (is_alpha c \<or> (48 \<le> ord c \<and> ord c \<le> 57))"

text \<open>\<open>[a-zA-Z0-9\s\-'\.]\<close>\<close>

definition name_class :: "char \<Rightarrow> bool" where
  "name_class c = (is_alnum c \<or> py_isspace c \<or> c = CHR ''-'' \<or> c = CHR 0x27 \<or> c = CHR ''.'')"

text \<open>\<open>re.match(r"^[a-zA-Z0-9\s\-'\.]+$", s)\<close>\<close>

definition name_pattern :: "string \<Rightarrow> bool" where
  "name_pattern s = re_plus name_class re_dollar s"

text \<open>\<open>[a-zA-Z0-9._%+-]\<close> and \<open>[a-zA-Z0-9.-]\<close>\<close>

definition local_class :: "char \<Rightarrow> bool" where
  "local_class c = (is_alnum c \<or> c = CHR ''.'' \<or> c = CHR ''_'' \<or> c = CHR ''%''
     \<or> c = CHR ''+'' \<or> c = CHR ''-'')"

definition domain_class :: "char \<Rightarrow> bool" where
  "domain_class c = (is_alnum c \<or> c = CHR ''.'' \<or> c = CHR ''-'')"

text \<open>\<open>re.match(r'^[a-zA-Z0-9._%+-]+@[a-zA-Z0-9.-]+\.[a-zA-Z]{2,}$', s)\<close>\<close>

definition email_pattern :: "string \<Rightarrow> bool" where
  "email_pattern s =
     re_plus local_class
       (re_class (\<lambda>c. c = CHR ''@'')
         (re_plus domain_class
           (re_class (\<lambda>c. c = CHR ''.'')
             (re_class is_alpha (re_class is_alpha (re_star is_alpha re_dollar)))))) s"

text \<open>\<open>[\s\-\(\)\+\.]\<close>, the characters that \<open>re.sub\<close> removes from a phone number.\<close>

definition phone_format_class :: "char \<Rightarrow> bool" where
  "phone_format_class c = (py_isspace c \<or> c = CHR ''-'' \<or> c = CHR ''('' \<or> c = CHR '')''
     \<or> c = CHR ''+'' \<or> c = CHR ''.'')"

section \<open>Exceptions\<close>

text \<open>
  The four exception classes of \<open>app/exceptions.py\<close> with the attributes their
  constructors store; the exceptions of the store: \<open>IntegrityError\<close> with its
  message, and any other exception of the store; and \<open>PythonError\<close> for an exception
  of the interpreter itself, such as \<open>UnboundLocalError\<close>.
\<close>

datatype exc =
    InvalidMemberDataError string string string
  | MemberAlreadyExistsError string "string option"
  | MemberNotFoundError string string
  | DatabaseOperationError string
  | IntegrityError string
  | StoreException string
  | PythonError string

section \<open>Validation (app/validation.py)\<close>

definition validate_name :: "pyval \<Rightarrow> exc + string" where
  "validate_name name =
     (if \<not> truthy name \<or> \<not> isinstance_str name
      then Inl (InvalidMemberDataError ''name'' (py_str name) ''Name is required'')
      else
        let raw = py_str name; normalized_name = py_strip raw in
        if normalized_name = []
        then Inl (InvalidMemberDataError ''name'' raw ''Name cannot be empty or only whitespace'')
        else if length normalized_name < 2
        then Inl (InvalidMemberDataError ''name'' raw ''Name must be at least 2 characters long'')
        else if length normalized_name > 100
        then Inl (InvalidMemberDataError ''name'' raw ''Name cannot exceed 100 characters'')
        else if \<not> name_pattern normalized_name
        then Inl (InvalidMemberDataError ''name'' raw ''Name contains invalid characters'')
        else Inr normalized_name)"

definition validate_email :: "pyval \<Rightarrow> exc + string" where
  "validate_email email =
     (if \<not> truthy email \<or> \<not> isinstance_str email
      then Inl (InvalidMemberDataError ''email'' (py_str email) ''Email is required'')
      else
        let raw = py_str email; normalized_email = py_lower (py_strip raw) in
        if normalized_email = []
        then Inl (InvalidMemberDataError ''email'' raw ''Email cannot be empty'')
        else if length normalized_email > 254
        then Inl (InvalidMemberDataError ''email'' raw ''Email address is too long'')
        else if \<not> email_pattern normalized_email
        then Inl (InvalidMemberDataError ''email'' raw ''Invalid email format'')
        else if py_in ''..'' normalized_email
        then Inl (InvalidMemberDataError ''email'' raw ''Email cannot contain consecutive dots'')
        else if py_startswith normalized_email ''.'' \<or> py_endswith normalized_email ''.''
        then Inl (InvalidMemberDataError ''email'' raw ''Email cannot start or end with a dot'')
        else Inr normalized_email)"

definition validate_phone :: "pyval \<Rightarrow> exc + string option" where
  "validate_phone phone =
     (if phone = PyNone then Inr None
      else if \<not> isinstance_str phone
      then Inl (InvalidMemberDataError ''phone'' (py_str phone) ''Phone must be a string'')
      else
        let raw = py_str phone; normalized_phone = py_strip raw in
        if normalized_phone = [] then Inr None
        else if length normalized_phone > 20
        then Inl (InvalidMemberDataError ''phone'' raw ''Phone number is too long'')
        else
          let clean_phone = filter (\<lambda>c. \<not> phone_format_class c) normalized_phone in
          if \<not> py_isdigit clean_phone
          then Inl (InvalidMemberDataError ''phone'' raw ''Phone number contains invalid characters'')
          else if length clean_phone < 8
          then Inl (InvalidMemberDataError ''phone'' raw ''Phone number is too short'')
          else if length clean_phone > 15
          then Inl (InvalidMemberDataError ''phone'' raw ''Phone number is too long'')
          else Inr (Some normalized_phone))"

text \<open>The three validators in the order name, email, phone; the first failure is raised.\<close>

definition validate_member_data :: "pyval \<Rightarrow> pyval \<Rightarrow> pyval \<Rightarrow> exc + (string \<times> string \<times> string option)" where
  "validate_member_data name email phone =
     (case validate_name name of
        Inl e \<Rightarrow> Inl e
      | Inr validated_name \<Rightarrow>
          (case validate_email email of
             Inl e \<Rightarrow> Inl e
           | Inr validated_email \<Rightarrow>
               (case validate_phone phone of
                  Inl e \<Rightarrow> Inl e
                | Inr validated_phone \<Rightarrow> Inr (validated_name, validated_email, validated_phone))))"

section \<open>The store and its session\<close>

text \<open>
  A row of table \<open>members\<close> (class \<open>Member\<close> of \<open>app/models.py\<close>): the primary key,
  \<open>name\<close>, \<open>email\<close> and the optional \<open>phone\<close>.
\<close>

record member =
  m_id :: int
  m_name :: string
  m_email :: string
  m_phone :: "string option"

text \<open>The request models \<open>MemberCreate\<close> and \<open>MemberUpdate\<close>.\<close>

record member_create =
  c_name :: string
  c_email :: string
  c_phone :: "string option"

record member_update =
  u_name :: "string option"
  u_email :: "string option"
  u_phone :: "string option"

text \<open>
  The session is the store as one operation sees it. \<open>db\<close> holds the committed rows of
  the table and \<open>txn\<close> the rows as the open transaction sees them, its own uncommitted
  changes included; a commit makes \<open>txn\<close> the new \<open>db\<close>, a rollback resets \<open>txn\<close> to
  \<open>db\<close>. The store is outside the repository and may fail at every round trip, for
  instance when a concurrent writer has taken an email first: \<open>faults\<close> lists what the
  coming round trips do, \<open>None\<close> for a round trip that succeeds; past the end of the
  list every round trip succeeds. \<open>log\<close> records the calls made on the session, in order;
  a rollback that raises is recorded as \<open>Ev_rollback_failed\<close>.
\<close>

datatype store_fault = Integrity_fault string | Other_fault string

datatype column = Email_col | Phone_col

datatype event =
    Ev_select column string
  | Ev_select_all
  | Ev_get int
  | Ev_add
  | Ev_delete
  | Ev_commit
  | Ev_refresh
  | Ev_rollback
  | Ev_rollback_failed

record session =
  db :: "member list"
  txn :: "member list"
  faults :: "store_fault option list"
  log :: "event list"

fun raise_fault :: "store_fault \<Rightarrow> exc" where
  "raise_fault (Integrity_fault msg) = IntegrityError msg"
| "raise_fault (Other_fault msg) = StoreException msg"

definition record_event :: "event \<Rightarrow> session \<Rightarrow> session" where
  "record_event ev s = s\<lparr>log := log s @ [ev]\<rparr>"

text \<open>One round trip to the store: the next entry of \<open>faults\<close> is consumed.\<close>

definition next_fault :: "session \<Rightarrow> store_fault option" where
  "next_fault s = (case faults s of [] \<Rightarrow> None | f # fs \<Rightarrow> f)"

definition round_trip :: "session \<Rightarrow> store_fault option \<times> session" where
  "round_trip s = (next_fault s, s\<lparr>faults := tl (faults s)\<rparr>)"

fun column_value :: "column \<Rightarrow> member \<Rightarrow> string option" where
  "column_value Email_col m = Some (m_email m)"
| "column_value Phone_col m = m_phone m"

text \<open>\<open>session.exec(select(Member).where(col == v)).first()\<close>\<close>

definition session_select_first :: "column \<Rightarrow> string \<Rightarrow> session \<Rightarrow> (exc + member option) \<times> session" where
  "session_select_first col v s =
     (case round_trip (record_event (Ev_select col v) s) of
        (Some f, s') \<Rightarrow> (Inl (raise_fault f), s')
      | (None, s') \<Rightarrow> (Inr (find (\<lambda>m. column_value col m = Some v) (txn s')), s'))"

text \<open>\<open>session.get(Member, member_id)\<close>\<close>

definition session_get :: "int \<Rightarrow> session \<Rightarrow> (exc + member option) \<times> session" where
  "session_get i s =
     (case round_trip (record_event (Ev_get i) s) of
        (Some f, s') \<Rightarrow> (Inl (raise_fault f), s')
      | (None, s') \<Rightarrow> (Inr (find (\<lambda>m. m_id m = i) (txn s')), s'))"

text \<open>
  \<open>session.exec(select(Member).offset(skip).limit(limit)).all()\<close>; a negative offset
  counts as zero and a negative limit as no limit.
\<close>

definition session_select_all :: "int \<Rightarrow> int \<Rightarrow> session \<Rightarrow> (exc + member list) \<times> session" where
  "session_select_all skip limit s =
     (case round_trip (record_event Ev_select_all s) of
        (Some f, s') \<Rightarrow> (Inl (raise_fault f), s')
      | (None, s') \<Rightarrow>
          (Inr (let rest = drop (nat skip) (txn s')
                in if limit < 0 then rest else take (nat limit) rest), s'))"

text \<open>The key the store gives to a new row: one more than the largest key in use.\<close>

definition fresh_id :: "member list \<Rightarrow> int" where
  "fresh_id rs = (case rs of [] \<Rightarrow> 1 | r # rs' \<Rightarrow> fold max (map m_id rs') (m_id r) + 1)"

text \<open>
  \<open>session.add(obj)\<close> for a new object: its row joins the transaction under a fresh key,
  which the object then carries.
\<close>

definition session_add_new :: "string \<Rightarrow> string \<Rightarrow> string option \<Rightarrow> session \<Rightarrow> member \<times> session" where
  "session_add_new n e p s =
     (let obj = \<lparr>m_id = fresh_id (txn s), m_name = n, m_email = e, m_phone = p\<rparr>
      in (obj, record_event Ev_add (s\<lparr>txn := txn s @ [obj]\<rparr>)))"

text \<open>\<open>session.add(obj)\<close> for a loaded object whose attributes were set: its row is updated.\<close>

definition session_add_dirty :: "member \<Rightarrow> session \<Rightarrow> session" where
  "session_add_dirty obj s =
     record_event Ev_add (s\<lparr>txn := map (\<lambda>r. if m_id r = m_id obj then obj else r) (txn s)\<rparr>)"

text \<open>\<open>session.delete(obj)\<close>\<close>

definition session_delete :: "member \<Rightarrow> session \<Rightarrow> session" where
  "session_delete obj s =
     record_event Ev_delete (s\<lparr>txn := filter (\<lambda>r. m_id r \<noteq> m_id obj) (txn s)\<rparr>)"

text \<open>\<open>session.commit()\<close>: the store may refuse; otherwise the transaction becomes the store.\<close>

definition session_commit :: "session \<Rightarrow> (exc + unit) \<times> session" where
  "session_commit s =
     (case round_trip (record_event Ev_commit s) of
        (Some f, s') \<Rightarrow> (Inl (raise_fault f), s')
      | (None, s') \<Rightarrow> (Inr (), s'\<lparr>db := txn s'\<rparr>))"

text \<open>\<open>session.refresh(obj)\<close>: the row of the object is read again; it raises when the row is gone.\<close>

definition session_refresh :: "member \<Rightarrow> session \<Rightarrow> (exc + member) \<times> session" where
  "session_refresh obj s =
     (case round_trip (record_event Ev_refresh s) of
        (Some f, s') \<Rightarrow> (Inl (raise_fault f), s')
      | (None, s') \<Rightarrow>
          (case find (\<lambda>m. m_id m = m_id obj) (txn s') of
             None \<Rightarrow> (Inl (StoreException ''Could not refresh instance''), s')
           | Some m \<Rightarrow> (Inr m, s')))"

text \<open>
  \<open>session.rollback()\<close>: a round trip like the others. When it succeeds the transaction
  is reset to what the store holds; when it raises the transaction stays as it is.
\<close>

definition session_rollback :: "session \<Rightarrow> (exc + unit) \<times> session" where
  "session_rollback s =
     (case round_trip s of
        (Some f, s') \<Rightarrow> (Inl (raise_fault f), record_event Ev_rollback_failed s')
      | (None, s') \<Rightarrow> (Inr (), record_event Ev_rollback (s'\<lparr>txn := db s'\<rparr>)))"

section \<open>CRUD operations (app/crud.py)\<close>

text \<open>An argument of type \<open>Optional[str]\<close> as a Python value.\<close>

fun py_optional_str :: "string option \<Rightarrow> pyval" where
  "py_optional_str None = PyNone"
| "py_optional_str (Some s) = PyStr s"

text \<open>
  The readers wrap every exception of their body:
  \<open>except Exception as e: raise DatabaseOperationError(op, str(e))\<close>.
\<close>

definition reraise_as_database_error :: "string \<Rightarrow> (exc + 'a) \<times> session \<Rightarrow> (exc + 'a) \<times> session" where
  "reraise_as_database_error operation r =
     (case r of
        (Inl e, s) \<Rightarrow> (Inl (DatabaseOperationError operation), s)
      | (Inr x, s) \<Rightarrow> (Inr x, s))"

definition get_member_by_email :: "session \<Rightarrow> string \<Rightarrow> (exc + member option) \<times> session" where
  "get_member_by_email s email =
     reraise_as_database_error ''get_member_by_email''
       (session_select_first Email_col (py_lower email) s)"

definition get_member_by_phone :: "session \<Rightarrow> string \<Rightarrow> (exc + member option) \<times> session" where
  "get_member_by_phone s phone =
     reraise_as_database_error ''get_member_by_phone''
       (session_select_first Phone_col phone s)"

definition get_member_by_id :: "session \<Rightarrow> int \<Rightarrow> (exc + member option) \<times> session" where
  "get_member_by_id s member_id =
     reraise_as_database_error ''get_member_by_id'' (session_get member_id s)"

definition get_all_members :: "session \<Rightarrow> int \<Rightarrow> int \<Rightarrow> (exc + member list) \<times> session" where
  "get_all_members s skip limit =
     reraise_as_database_error ''get_all_members'' (session_select_all skip limit s)"

subsection \<open>create_member\<close>

text \<open>
  The \<open>except\<close> clauses of \<open>create_member\<close>. \<open>locals\<close> holds \<open>validated_email\<close> and
  \<open>validated_phone\<close> once the validation has assigned them. \<open>create_member_reraise\<close>
  is the exception that the clause catching \<open>e\<close> raises after its rollback.
\<close>

fun create_member_reraise :: "(string \<times> string option) option \<Rightarrow> exc \<Rightarrow> exc" where
  "create_member_reraise locals (InvalidMemberDataError f v r) = InvalidMemberDataError f v r"
| "create_member_reraise locals (MemberAlreadyExistsError f v) = MemberAlreadyExistsError f v"
| "create_member_reraise locals (IntegrityError msg) =
     (if py_in ''email'' (py_lower msg) then
        (case locals of
           None \<Rightarrow> PythonError ''UnboundLocalError''
         | Some (validated_email, validated_phone) \<Rightarrow>
             MemberAlreadyExistsError ''email'' (Some validated_email))
      else if py_in ''phone'' (py_lower msg) then
        (case locals of
           None \<Rightarrow> PythonError ''UnboundLocalError''
         | Some (validated_email, validated_phone) \<Rightarrow>
             MemberAlreadyExistsError ''phone''
               (Some (case validated_phone of
                        None \<Rightarrow> []
                      | Some p \<Rightarrow> if p \<noteq> [] then p else [])))
      else DatabaseOperationError ''create_member'')"
| "create_member_reraise locals e = DatabaseOperationError ''create_member''"

text \<open>
  Every clause calls \<open>session.rollback()\<close> first and then raises; when the rollback
  raises, its exception is the one that leaves the clause.
\<close>

definition create_member_except :: "(string \<times> string option) option \<Rightarrow> exc \<Rightarrow> session \<Rightarrow> (exc + member) \<times> session" where
  "create_member_except locals e s =
     (case session_rollback s of
        (Inl x, s') \<Rightarrow> (Inl x, s')
      | (Inr u, s') \<Rightarrow> (Inl (create_member_reraise locals e), s'))"

text \<open>Step 4 of \<open>create_member\<close>: \<open>add\<close>, \<open>commit\<close>, \<open>refresh\<close>, \<open>return new_member\<close>.\<close>

definition create_member_write :: "string \<Rightarrow> string \<Rightarrow> string option \<Rightarrow> session \<Rightarrow> (exc + member) \<times> session" where
  "create_member_write validated_name validated_email validated_phone s =
     (let locals = Some (validated_email, validated_phone);
          (new_member, s1) = session_add_new validated_name validated_email validated_phone s
      in case session_commit s1 of
           (Inl e, s2) \<Rightarrow> create_member_except locals e s2
         | (Inr u, s2) \<Rightarrow>
             (case session_refresh new_member s2 of
                (Inl e, s3) \<Rightarrow> create_member_except locals e s3
              | (Inr m, s3) \<Rightarrow> (Inr m, s3)))"

definition create_member :: "session \<Rightarrow> member_create \<Rightarrow> (exc + member) \<times> session" where
  "create_member s member_data =
     (case validate_member_data (PyStr (c_name member_data)) (PyStr (c_email member_data))
             (py_optional_str (c_phone member_data)) of
        Inl e \<Rightarrow> create_member_except None e s
      | Inr (validated_name, validated_email, validated_phone) \<Rightarrow>
          let locals = Some (validated_email, validated_phone) in
          (case get_member_by_email s validated_email of
             (Inl e, s1) \<Rightarrow> create_member_except locals e s1
           | (Inr (Some existing_member_by_email), s1) \<Rightarrow>
               create_member_except locals (MemberAlreadyExistsError ''email'' (Some validated_email)) s1
           | (Inr None, s1) \<Rightarrow>
               (case validated_phone of
                  None \<Rightarrow> create_member_write validated_name validated_email validated_phone s1
                | Some p \<Rightarrow>
                    if p = [] then create_member_write validated_name validated_email validated_phone s1
                    else
                      (case get_member_by_phone s1 p of
                         (Inl e, s2) \<Rightarrow> create_member_except locals e s2
                       | (Inr (Some existing_member_by_phone), s2) \<Rightarrow>
                           create_member_except locals (MemberAlreadyExistsError ''phone'' (Some p)) s2
                       | (Inr None, s2) \<Rightarrow>
                           create_member_write validated_name validated_email validated_phone s2))))"

subsection \<open>update_member\<close>

text \<open>
  The dictionary \<open>update_data\<close>: a key is either absent (\<open>None\<close>) or holds a value; the
  value under \<open>phone\<close> can itself be Python's \<open>None\<close>.
\<close>

record update_data =
  ud_name :: "string option"
  ud_email :: "string option"
  ud_phone :: "string option option"

definition empty_update_data :: update_data where
  "empty_update_data = \<lparr>ud_name = None, ud_email = None, ud_phone = None\<rparr>"

text \<open>\<open>for field, value in update_data.items(): setattr(existing_member, field, value)\<close>\<close>

definition apply_update_data :: "update_data \<Rightarrow> member \<Rightarrow> member" where
  "apply_update_data ud existing_member =
     existing_member
       \<lparr>m_name := (case ud_name ud of None \<Rightarrow> m_name existing_member | Some n \<Rightarrow> n),
        m_email := (case ud_email ud of None \<Rightarrow> m_email existing_member | Some e \<Rightarrow> e),
        m_phone := (case ud_phone ud of None \<Rightarrow> m_phone existing_member | Some p \<Rightarrow> p)\<rparr>"

text \<open>
  The \<open>except\<close> clauses of \<open>update_member\<close>; \<open>locals\<close> holds \<open>update_data\<close> once it is
  assigned. \<open>update_member_reraise\<close> is the exception that the clause catching \<open>e\<close>
  raises after its rollback.
\<close>

fun update_member_reraise :: "update_data option \<Rightarrow> exc \<Rightarrow> exc" where
  "update_member_reraise locals (InvalidMemberDataError f v r) = InvalidMemberDataError f v r"
| "update_member_reraise locals (MemberAlreadyExistsError f v) = MemberAlreadyExistsError f v"
| "update_member_reraise locals (MemberNotFoundError f v) = MemberNotFoundError f v"
| "update_member_reraise locals (IntegrityError msg) =
     (if py_in ''email'' (py_lower msg) then
        (case locals of
           None \<Rightarrow> PythonError ''UnboundLocalError''
         | Some ud \<Rightarrow>
             MemberAlreadyExistsError ''email''
               (Some (case ud_email ud of None \<Rightarrow> [] | Some e \<Rightarrow> e)))
      else if py_in ''phone'' (py_lower msg) then
        (case locals of
           None \<Rightarrow> PythonError ''UnboundLocalError''
         | Some ud \<Rightarrow>
             MemberAlreadyExistsError ''phone''
               (case ud_phone ud of None \<Rightarrow> Some [] | Some p \<Rightarrow> p))
      else DatabaseOperationError ''update_member'')"
| "update_member_reraise locals e = DatabaseOperationError ''update_member''"

definition update_member_except :: "update_data option \<Rightarrow> exc \<Rightarrow> session \<Rightarrow> (exc + member) \<times> session" where
  "update_member_except locals e s =
     (case session_rollback s of
        (Inl x, s') \<Rightarrow> (Inl x, s')
      | (Inr u, s') \<Rightarrow> (Inl (update_member_reraise locals e), s'))"

text \<open>
  \<open>if member_data.name is not None:\<close> the name is validated beside a placeholder email.
  The result is the entry for \<open>update_data\<close>, absent when no name was supplied.
\<close>

definition update_member_name :: "member_update \<Rightarrow> exc + string option" where
  "update_member_name member_data =
     (case u_name member_data of
        None \<Rightarrow> Inr None
      | Some n \<Rightarrow>
          (case validate_member_data (PyStr n) (PyStr ''dummy@example.com'') PyNone of
             Inl e \<Rightarrow> Inl e
           | Inr (validated_name, validated_email, validated_phone) \<Rightarrow> Inr (Some validated_name)))"

text \<open>
  \<open>if member_data.email is not None:\<close> validation beside a placeholder name, then the
  uniqueness check that leaves out the member being updated.
\<close>

definition update_member_email :: "session \<Rightarrow> int \<Rightarrow> member_update \<Rightarrow> (exc + string option) \<times> session" where
  "update_member_email s member_id member_data =
     (case u_email member_data of
        None \<Rightarrow> (Inr None, s)
      | Some e \<Rightarrow>
          (case validate_member_data (PyStr ''Dummy'') (PyStr e) PyNone of
             Inl x \<Rightarrow> (Inl x, s)
           | Inr (validated_name, validated_email, validated_phone) \<Rightarrow>
               (case get_member_by_email s validated_email of
                  (Inl x, s1) \<Rightarrow> (Inl x, s1)
                | (Inr None, s1) \<Rightarrow> (Inr (Some validated_email), s1)
                | (Inr (Some existing_email_member), s1) \<Rightarrow>
                    if m_id existing_email_member \<noteq> member_id
                    then (Inl (MemberAlreadyExistsError ''email'' (Some validated_email)), s1)
                    else (Inr (Some validated_email), s1))))"

text \<open>
  \<open>if member_data.phone is not None:\<close> validation beside placeholders; the uniqueness
  check runs only for a phone that is present after validation, and the validated value,
  which may be \<open>None\<close>, is stored under \<open>phone\<close> in either case.
\<close>

definition update_member_phone :: "session \<Rightarrow> int \<Rightarrow> member_update \<Rightarrow> (exc + string option option) \<times> session" where
  "update_member_phone s member_id member_data =
     (case u_phone member_data of
        None \<Rightarrow> (Inr None, s)
      | Some p \<Rightarrow>
          (case validate_member_data (PyStr ''Dummy'') (PyStr ''dummy@example.com'') (PyStr p) of
             Inl x \<Rightarrow> (Inl x, s)
           | Inr (validated_name, validated_email, validated_phone) \<Rightarrow>
               (case validated_phone of
                  None \<Rightarrow> (Inr (Some None), s)
                | Some vp \<Rightarrow>
                    if vp = [] then (Inr (Some (Some vp)), s)
                    else
                      (case get_member_by_phone s vp of
                         (Inl x, s1) \<Rightarrow> (Inl x, s1)
                       | (Inr None, s1) \<Rightarrow> (Inr (Some (Some vp)), s1)
                       | (Inr (Some existing_phone_member), s1) \<Rightarrow>
                           if m_id existing_phone_member \<noteq> member_id
                           then (Inl (MemberAlreadyExistsError ''phone'' (Some vp)), s1)
                           else (Inr (Some (Some vp)), s1)))))"

text \<open>The attributes are set, then \<open>add\<close>, \<open>commit\<close>, \<open>refresh\<close>, \<open>return existing_member\<close>.\<close>

definition update_member_write :: "update_data \<Rightarrow> member \<Rightarrow> session \<Rightarrow> (exc + member) \<times> session" where
  "update_member_write ud existing_member s =
     (let changed = apply_update_data ud existing_member;
          s1 = session_add_dirty changed s
      in case session_commit s1 of
           (Inl e, s2) \<Rightarrow> update_member_except (Some ud) e s2
         | (Inr u, s2) \<Rightarrow>
             (case session_refresh changed s2 of
                (Inl e, s3) \<Rightarrow> update_member_except (Some ud) e s3
              | (Inr m, s3) \<Rightarrow> (Inr m, s3)))"

definition update_member :: "session \<Rightarrow> int \<Rightarrow> member_update \<Rightarrow> (exc + member) \<times> session" where
  "update_member s member_id member_data =
     (case get_member_by_id s member_id of
        (Inl e, s1) \<Rightarrow> update_member_except None e s1
      | (Inr None, s1) \<Rightarrow>
          update_member_except None (MemberNotFoundError ''id'' (py_str_int member_id)) s1
      | (Inr (Some existing_member), s1) \<Rightarrow>
          (case update_member_name member_data of
             Inl e \<Rightarrow> update_member_except (Some empty_update_data) e s1
           | Inr nm \<Rightarrow>
               let ud1 = empty_update_data\<lparr>ud_name := nm\<rparr> in
               (case update_member_email s1 member_id member_data of
                  (Inl e, s2) \<Rightarrow> update_member_except (Some ud1) e s2
                | (Inr em, s2) \<Rightarrow>
                    let ud2 = ud1\<lparr>ud_email := em\<rparr> in
                    (case update_member_phone s2 member_id member_data of
                       (Inl e, s3) \<Rightarrow> update_member_except (Some ud2) e s3
                     | (Inr ph, s3) \<Rightarrow>
                         update_member_write (ud2\<lparr>ud_phone := ph\<rparr>) existing_member s3))))"

subsection \<open>delete_member\<close>

text \<open>
  The \<open>except\<close> clauses of \<open>delete_member\<close>: the exception raised after the rollback,
  and the clauses themselves.
\<close>

fun delete_member_reraise :: "exc \<Rightarrow> exc" where
  "delete_member_reraise (MemberNotFoundError f v) = MemberNotFoundError f v"
| "delete_member_reraise e = DatabaseOperationError ''delete_member''"

definition delete_member_except :: "exc \<Rightarrow> session \<Rightarrow> (exc + bool) \<times> session" where
  "delete_member_except e s =
     (case session_rollback s of
        (Inl x, s') \<Rightarrow> (Inl x, s')
      | (Inr u, s') \<Rightarrow> (Inl (delete_member_reraise e), s'))"

definition delete_member :: "session \<Rightarrow> int \<Rightarrow> (exc + bool) \<times> session" where
  "delete_member s member_id =
     (case get_member_by_id s member_id of
        (Inl e, s1) \<Rightarrow> delete_member_except e s1
      | (Inr None, s1) \<Rightarrow>
          delete_member_except (MemberNotFoundError ''id'' (py_str_int member_id)) s1
      | (Inr (Some existing_member), s1) \<Rightarrow>
          (case session_commit (session_delete existing_member s1) of
             (Inl e, s2) \<Rightarrow> delete_member_except e s2
           | (Inr u, s2) \<Rightarrow> (Inr True, s2)))"

section \<open>The character sets as the specification words them\<close>

text \<open>
  The specification lists the characters of a name as letters, digits, space, hyphen,
  apostrophe and dot, and the formatting characters of a phone number as space, hyphen,
  parentheses, plus and dot. These two sets follow that wording, with the space
  character alone where the patterns of the code have the whitespace class.
\<close>

definition spec_name_char :: "char \<Rightarrow> bool" where
  "spec_name_char c = (is_alnum c \<or> c = CHR '' '' \<or> c = CHR ''-'' \<or> c = CHR 0x27 \<or> c = CHR ''.'')"

definition spec_phone_format_char :: "char \<Rightarrow> bool" where
  "spec_phone_format_char c = (c = CHR '' '' \<or> c = CHR ''-'' \<or> c = CHR ''('' \<or> c = CHR '')''
     \<or> c = CHR ''+'' \<or> c = CHR ''.'')"

section \<open>Outcomes of the operations\<close>

text \<open>
  The four kinds of error of the service: \<open>InvalidField\<close>, \<open>AlreadyExists\<close>,
  \<open>NotFound\<close> and \<open>StoreError\<close> are the classes \<open>InvalidMemberDataError\<close>,
  \<open>MemberAlreadyExistsError\<close>, \<open>MemberNotFoundError\<close> and \<open>DatabaseOperationError\<close>.
  A result is a domain result when it is a value or one of these errors.
\<close>

fun domain_error :: "exc \<Rightarrow> bool" where
  "domain_error (InvalidMemberDataError f v r) = True"
| "domain_error (MemberAlreadyExistsError f v) = True"
| "domain_error (MemberNotFoundError f v) = True"
| "domain_error (DatabaseOperationError operation) = True"
| "domain_error (IntegrityError msg) = False"
| "domain_error (StoreException msg) = False"
| "domain_error (PythonError msg) = False"

fun domain_result :: "exc + 'a \<Rightarrow> bool" where
  "domain_result (Inl e) = domain_error e"
| "domain_result (Inr x) = True"

text \<open>
  The last call on the session was a rollback that raised. An outcome of an operation is
  guarded when its result is a domain result or its rollback raised.
\<close>

definition rollback_raised :: "session \<Rightarrow> bool" where
  "rollback_raised s = (log s \<noteq> [] \<and> last (log s) = Ev_rollback_failed)"

definition guarded :: "(exc + 'a) \<times> session \<Rightarrow> bool" where
  "guarded outcome = (domain_result (fst outcome) \<or> rollback_raised (snd outcome))"

text \<open>
  A session \<open>s'\<close> left behind by an operation that started in \<open>s\<close> and failed: the log
  of \<open>s\<close> was extended and ends with a rollback, the transaction holds what the store
  holds, and the store holds what it held in \<open>s\<close> unless the operation got as far as
  the refresh, which follows a commit that succeeded.
\<close>

definition rolled_back :: "session \<Rightarrow> session \<Rightarrow> bool" where
  "rolled_back s s' =
     (txn s' = db s'
      \<and> take (length (log s)) (log s') = log s
      \<and> log s' \<noteq> [] \<and> last (log s') = Ev_rollback
      \<and> (Ev_refresh \<notin> set (drop (length (log s)) (log s')) \<longrightarrow> db s' = db s))"

section \<open>The fields an update supplies\<close>

text \<open>
  What \<open>update_member\<close> has in \<open>update_data\<close> when every supplied field passes its
  validation: a key for each field of the payload that is not \<open>None\<close>, holding the
  validated value.
\<close>

fun accepted :: "exc + 'a \<Rightarrow> 'a option" where
  "accepted (Inr x) = Some x"
| "accepted (Inl e) = None"

definition supplied_update_data :: "member_update \<Rightarrow> update_data" where
  "supplied_update_data member_data =
     \<lparr>ud_name = (case u_name member_data of None \<Rightarrow> None
                  | Some n \<Rightarrow> accepted (validate_name (PyStr n))),
      ud_email = (case u_email member_data of None \<Rightarrow> None
                  | Some e \<Rightarrow> accepted (validate_email (PyStr e))),
      ud_phone = (case u_phone member_data of None \<Rightarrow> None
                  | Some p \<Rightarrow> accepted (validate_phone (PyStr p)))\<rparr>"

section \<open>Example sessions\<close>

text \<open>A store without rows, and a store that holds one member; neither has a fault ahead.\<close>

definition example_member :: member where
  "example_member = \<lparr>m_id = 1, m_name = ''John Doe'', m_email = ''john@example.com'',
     m_phone = Some ''+1-234-567-8901''\<rparr>"

definition example_session :: session where
  "example_session = \<lparr>db = [example_member], txn = [example_member], faults = [], log = []\<rparr>"

definition empty_session :: session where
  "empty_session = \<lparr>db = [], txn = [], faults = [], log = []\<rparr>"

text \<open>
  The text of the \<open>IntegrityError\<close> that the store raises when the insert of a member
  meets a phone that another writer has taken: the message of the driver, which names
  the column that failed, then the statement and its parameters.
\<close>

definition phone_conflict_message :: string where
  "phone_conflict_message =
     ''(sqlite3.IntegrityError) UNIQUE constraint failed: members.phone'' @ [CHR 0x0A]
     @ ''[SQL: INSERT INTO members (name, email, phone) VALUES (?, ?, ?)]'' @ [CHR 0x0A]
     @ ''[parameters: ('' @ [CHR 0x27] @ ''Jane Smith'' @ [CHR 0x27] @ '', ''
     @ [CHR 0x27] @ ''jane@example.com'' @ [CHR 0x27] @ '', ''
     @ [CHR 0x27] @ ''+62-812-3456-7890'' @ [CHR 0x27] @ '')]'' @ [CHR 0x0A]
     @ ''(Background on this error at: https://sqlalche.me/e/20/gkpj)''"

section \<open>Properties of the string functions\<close>

lemma ord_less_256: "ord c < 256"
  by (simp add: ord_def)

lemma ord_char_of: "n < 256 \<Longrightarrow> ord (char_of n) = n"
  by (simp add: ord_def)

lemma py_isupper_lower_char: "\<not> py_isupper (py_lower_char c)"
proof (cases "py_isupper c")
  case True
  then have "ord c + 32 < 256" by (auto simp: py_isupper_def Let_def)
  then have "ord (char_of (ord c + 32) :: char) = ord c + 32" by (rule ord_char_of)
  with True show ?thesis by (auto simp: py_lower_char_def py_isupper_def Let_def)
next
  case False
  then show ?thesis by (simp add: py_lower_char_def)
qed

lemma py_lower_char_idem: "py_lower_char (py_lower_char c) = py_lower_char c"
  using py_isupper_lower_char [of c] by (simp add: py_lower_char_def)

lemma py_lower_idem: "py_lower (py_lower s) = py_lower s"
  by (simp add: py_lower_def py_lower_char_idem)

lemma py_isspace_lower_char: "py_isspace (py_lower_char c) = py_isspace c"
proof (cases "py_isupper c")
  case True
  then have "ord c + 32 < 256" by (auto simp: py_isupper_def Let_def)
  then have "ord (char_of (ord c + 32) :: char) = ord c + 32" by (rule ord_char_of)
  with True show ?thesis by (auto simp: py_lower_char_def py_isupper_def py_isspace_def Let_def)
next
  case False
  then show ?thesis by (simp add: py_lower_char_def)
qed

lemma dropWhile_isspace_lower:
  "dropWhile py_isspace (py_lower s) = py_lower (dropWhile py_isspace s)"
  by (induction s) (simp_all add: py_lower_def py_isspace_lower_char)

lemma py_strip_lower: "py_strip (py_lower s) = py_lower (py_strip s)"
proof -
  have "rev (py_lower t) = py_lower (rev t)" for t
    by (simp add: py_lower_def rev_map)
  then show ?thesis
    by (simp add: py_strip_def dropWhile_isspace_lower)
qed

lemma py_strip_idem: "py_strip (py_strip s) = py_strip s"
proof -
  let ?a = "dropWhile py_isspace s"
  let ?b = "dropWhile py_isspace (rev ?a)"
  have "dropWhile py_isspace (rev ?b) = rev ?b"
  proof (cases "?a = []")
    case True
    then show ?thesis by (metis dropWhile.simps(1) rev.simps(1))
  next
    case False
    then have h: "\<not> py_isspace (hd ?a)" by (rule hd_dropWhile)
    from False obtain x xs where a: "?a = x # xs" by (cases ?a) auto
    with h have x: "\<not> py_isspace x" by simp
    have "rev ?a = rev xs @ [x]" using a by simp
    then have "?b = dropWhile py_isspace (rev xs @ [x])" by simp
    then obtain ys where "?b = ys @ [x]"
      using x by (metis dropWhile_append dropWhile.simps append_Nil)
    then have "rev ?b = x # rev ys" by simp
    with x show ?thesis by simp
  qed
  moreover have "dropWhile py_isspace ?b = ?b"
    by (metis dropWhile_eq_Nil_conv dropWhile_idem hd_dropWhile dropWhile.simps list.collapse list.sel(1))
  ultimately show ?thesis
    by (simp add: py_strip_def)
qed

lemma re_plus_dollar:
  assumes "p (CHR 0x0A)"
  shows "re_plus p re_dollar s \<longleftrightarrow> s \<noteq> [] \<and> list_all p s"
proof (induction s)
  case Nil
  then show ?case by simp
next
  case (Cons c cs)
  then show ?case using assms by (cases cs) (auto simp: re_dollar_def)
qed

lemma name_pattern_iff: "name_pattern s \<longleftrightarrow> s \<noteq> [] \<and> list_all name_class s"
proof -
  have "name_class (CHR 0x0A)"
    by (simp add: name_class_def py_isspace_def ord_def)
  then show ?thesis
    unfolding name_pattern_def by (rule re_plus_dollar)
qed

section \<open>Properties of the validators\<close>

text \<open>
  C8, as stated, fails on the code: the class of the name pattern has \<open>\s\<close>, so a tab
  inside a name is accepted although it is none of letters, digits, space, hyphen,
  apostrophe and dot.
\<close>

theorem validate_name_tab_counterexample:
  "validate_name (PyStr [CHR ''J'', CHR 0x09, CHR ''o'']) = Inr [CHR ''J'', CHR 0x09, CHR ''o'']
   \<and> \<not> spec_name_char (CHR 0x09)"
  by code_simp

text \<open>
  C8 (amended): \<open>validate_name\<close> returns the trimmed string when the input is a string
  whose trimmed form has 2 to 100 characters, each of them an ASCII letter, an ASCII
  digit, a whitespace character, a hyphen, an apostrophe or a dot; on every other input
  (not a string, empty, blank, too short, too long, another character) it fails with
  \<open>InvalidMemberDataError\<close> for field \<open>name\<close>.
\<close>

theorem validate_name_amended:
  "(isinstance_str v \<and> 2 \<le> length (py_strip (py_str v)) \<and> length (py_strip (py_str v)) \<le> 100
      \<and> list_all name_class (py_strip (py_str v))
     \<longrightarrow> validate_name v = Inr (py_strip (py_str v)))
   \<and> (\<not> (isinstance_str v \<and> 2 \<le> length (py_strip (py_str v)) \<and> length (py_strip (py_str v)) \<le> 100
      \<and> list_all name_class (py_strip (py_str v)))
     \<longrightarrow> (\<exists>reason. validate_name v = Inl (InvalidMemberDataError ''name'' (py_str v) reason)))"
proof (cases v)
  case PyNone
  then show ?thesis by (simp add: validate_name_def)
next
  case (PyBool b)
  then show ?thesis by (simp add: validate_name_def)
next
  case (PyStr s)
  have "py_strip [] = []" by (simp add: py_strip_def)
  then have "s = [] \<Longrightarrow> py_strip s = []" by simp
  with PyStr show ?thesis
    by (auto simp: validate_name_def Let_def name_pattern_iff)
qed

text \<open>The amended C8 at a padded name that is accepted and at a name that is too short.\<close>

theorem validate_name_amended_witness:
  "validate_name (PyStr ''  Jane Smith  '') = Inr ''Jane Smith''
   \<and> (\<exists>reason. validate_name (PyStr ''A'') = Inl (InvalidMemberDataError ''name'' ''A'' reason))"
proof -
  have s: "py_strip ''  Jane Smith  '' = ''Jane Smith''" "py_strip ''A'' = ''A''" by code_simp+
  have c: "list_all name_class ''Jane Smith''" by code_simp
  show ?thesis
    using validate_name_amended [of "PyStr ''  Jane Smith  ''"] validate_name_amended [of "PyStr ''A''"] s c
    by simp
qed

text \<open>
  C7, as stated, fails on the code: \<open>re.sub\<close> removes every whitespace character, so a
  phone number with a tab between its digits is accepted although removing space,
  hyphen, parentheses, plus and dot leaves the tab, which is not a digit.
\<close>

theorem validate_phone_tab_counterexample:
  "validate_phone (PyStr (''1234'' @ [CHR 0x09] @ ''5678'')) = Inr (Some (''1234'' @ [CHR 0x09] @ ''5678''))
   \<and> \<not> list_all py_isdigit_char (filter (\<lambda>c. \<not> spec_phone_format_char c) (''1234'' @ [CHR 0x09] @ ''5678''))"
  by code_simp

text \<open>
  C7 (amended): \<open>validate_phone\<close> returns absent on \<open>None\<close> and on an empty or blank
  string; a value that is not a string fails with \<open>InvalidMemberDataError\<close> for field
  \<open>phone\<close>; a string whose trimmed form is not empty fails with that error when the
  trimmed form has more than 20 characters, or when removing whitespace, hyphen,
  parentheses, plus and dot leaves a character that is not a digit, or fewer than 8 or
  more than 15 characters; otherwise the trimmed string is returned as it is.
\<close>

theorem validate_phone_amended:
  "(v = PyNone \<longrightarrow> validate_phone v = Inr None)
   \<and> (v \<noteq> PyNone \<and> \<not> isinstance_str v
        \<longrightarrow> (\<exists>reason. validate_phone v = Inl (InvalidMemberDataError ''phone'' (py_str v) reason)))
   \<and> (isinstance_str v \<and> py_strip (py_str v) = [] \<longrightarrow> validate_phone v = Inr None)
   \<and> (isinstance_str v \<and> py_strip (py_str v) \<noteq> []
        \<and> (20 < length (py_strip (py_str v))
           \<or> \<not> list_all py_isdigit_char (filter (\<lambda>c. \<not> phone_format_class c) (py_strip (py_str v)))
           \<or> length (filter (\<lambda>c. \<not> phone_format_class c) (py_strip (py_str v))) < 8
           \<or> 15 < length (filter (\<lambda>c. \<not> phone_format_class c) (py_strip (py_str v))))
        \<longrightarrow> (\<exists>reason. validate_phone v = Inl (InvalidMemberDataError ''phone'' (py_str v) reason)))
   \<and> (isinstance_str v \<and> py_strip (py_str v) \<noteq> []
        \<and> length (py_strip (py_str v)) \<le> 20
        \<and> list_all py_isdigit_char (filter (\<lambda>c. \<not> phone_format_class c) (py_strip (py_str v)))
        \<and> 8 \<le> length (filter (\<lambda>c. \<not> phone_format_class c) (py_strip (py_str v)))
        \<and> length (filter (\<lambda>c. \<not> phone_format_class c) (py_strip (py_str v))) \<le> 15
        \<longrightarrow> validate_phone v = Inr (Some (py_strip (py_str v))))"
proof (cases v)
  case PyNone
  then show ?thesis by (simp add: validate_phone_def)
next
  case (PyBool b)
  then show ?thesis by (simp add: validate_phone_def)
next
  case (PyStr s)
  then show ?thesis
    by (auto simp: validate_phone_def Let_def py_isdigit_def)
qed

text \<open>
  The amended C7 at \<open>None\<close>, at a value that is not a string, at a blank string, at a
  phone number with letters and at a padded phone number that is accepted.
\<close>

theorem validate_phone_amended_witness:
  "validate_phone PyNone = Inr None
   \<and> (\<exists>reason. validate_phone (PyBool True) = Inl (InvalidMemberDataError ''phone'' ''True'' reason))
   \<and> validate_phone (PyStr ''  '') = Inr None
   \<and> (\<exists>reason. validate_phone (PyStr ''123-abc-7890'') = Inl (InvalidMemberDataError ''phone'' ''123-abc-7890'' reason))
   \<and> validate_phone (PyStr '' +1-234-567-8901 '') = Inr (Some ''+1-234-567-8901'')"
proof -
  have s1: "py_strip ''  '' = []" by code_simp
  have s2: "py_strip ''123-abc-7890'' = ''123-abc-7890''" by code_simp
  have s3: "py_strip '' +1-234-567-8901 '' = ''+1-234-567-8901''" by code_simp
  have f2: "\<not> list_all py_isdigit_char (filter (\<lambda>c. \<not> phone_format_class c) ''123-abc-7890'')"
    by code_simp
  have f3: "filter (\<lambda>c. \<not> phone_format_class c) ''+1-234-567-8901'' = ''12345678901''"
    by code_simp
  have d3: "list_all py_isdigit_char ''12345678901''" by code_simp
  show ?thesis
    using validate_phone_amended [of PyNone] validate_phone_amended [of "PyBool True"]
      validate_phone_amended [of "PyStr ''  ''"] validate_phone_amended [of "PyStr ''123-abc-7890''"]
      validate_phone_amended [of "PyStr '' +1-234-567-8901 ''"] s1 s2 s3 f2 f3 d3
    by simp
qed

text \<open>
  C9: on every input that \<open>validate_email\<close> accepts, validating the result again
  returns the same result.
\<close>

theorem validate_email_idempotent:
  "validate_email v = Inr y \<Longrightarrow> validate_email (PyStr y) = Inr y"
proof -
  assume a: "validate_email v = Inr y"
  then obtain s where v: "v = PyStr s"
    by (cases v) (auto simp: validate_email_def)
  from a v have y: "y = py_lower (py_strip s)" and ne: "y \<noteq> []"
    by (auto simp: validate_email_def Let_def split: if_splits)
  have fixed: "py_lower (py_strip y) = y"
    unfolding y by (simp add: py_strip_lower py_strip_idem py_lower_idem)
  from a v y have "validate_email (PyStr s) = Inr (py_lower (py_strip s))" by simp
  then show ?thesis
    using ne fixed unfolding y [symmetric]
    by (simp add: validate_email_def Let_def split: if_splits)
qed

text \<open>C9 at a padded upper-case email.\<close>

theorem validate_email_idempotent_witness:
  "validate_email (PyStr ''  JOHN.DOE@EXAMPLE.COM  '') = Inr ''john.doe@example.com''
   \<and> validate_email (PyStr ''john.doe@example.com'') = Inr ''john.doe@example.com''"
proof -
  have h: "validate_email (PyStr ''  JOHN.DOE@EXAMPLE.COM  '') = Inr ''john.doe@example.com''"
    by code_simp
  from validate_email_idempotent [OF h] h show ?thesis by simp
qed

section \<open>Error kinds\<close>

lemma validate_name_error:
  "validate_name v = Inl e \<Longrightarrow> \<exists>a r. e = InvalidMemberDataError ''name'' a r"
  by (auto simp: validate_name_def Let_def split: if_splits)

lemma validate_email_error:
  "validate_email v = Inl e \<Longrightarrow> \<exists>a r. e = InvalidMemberDataError ''email'' a r"
  by (auto simp: validate_email_def Let_def split: if_splits)

lemma validate_phone_error:
  "validate_phone v = Inl e \<Longrightarrow> \<exists>a r. e = InvalidMemberDataError ''phone'' a r"
  by (auto simp: validate_phone_def Let_def split: if_splits)

lemma validate_member_data_error:
  "validate_member_data n e p = Inl x \<Longrightarrow> \<exists>f a r. x = InvalidMemberDataError f a r"
  by (auto simp: validate_member_data_def split: sum.splits
      dest: validate_name_error validate_email_error validate_phone_error)

lemma reraise_error:
  "reraise_as_database_error operation r = (Inl e, s) \<Longrightarrow> e = DatabaseOperationError operation"
  by (auto simp: reraise_as_database_error_def split: prod.splits sum.splits)




lemma get_all_members_error:
  "get_all_members s a b = (Inl e, s') \<Longrightarrow> e = DatabaseOperationError ''get_all_members''"
  unfolding get_all_members_def by (rule reraise_error)

lemma round_trip_state [simp]:
  "db (snd (round_trip s)) = db s" "txn (snd (round_trip s)) = txn s"
  "log (snd (round_trip s)) = log s" "faults (snd (round_trip s)) = tl (faults s)"
  by (simp_all add: round_trip_def)

lemma record_event_state [simp]:
  "db (record_event ev s) = db s" "txn (record_event ev s) = txn s"
  "log (record_event ev s) = log s @ [ev]" "faults (record_event ev s) = faults s"
  by (simp_all add: record_event_def)

lemma next_fault_simps [simp]:
  "faults s = [] \<Longrightarrow> next_fault s = None"
  "faults s = f # fs \<Longrightarrow> next_fault s = f"
  by (simp_all add: next_fault_def)

lemma session_rollback_ok:
  assumes "next_fault s = None"
  shows "fst (session_rollback s) = Inr ()" "db (snd (session_rollback s)) = db s"
    "txn (snd (session_rollback s)) = db s" "log (snd (session_rollback s)) = log s @ [Ev_rollback]"
    "faults (snd (session_rollback s)) = tl (faults s)"
  using assms by (simp_all add: session_rollback_def round_trip_def)

lemma session_rollback_raises:
  assumes "next_fault s = Some f"
  shows "fst (session_rollback s) = Inl (raise_fault f)" "db (snd (session_rollback s)) = db s"
    "txn (snd (session_rollback s)) = txn s"
    "log (snd (session_rollback s)) = log s @ [Ev_rollback_failed]"
    "faults (snd (session_rollback s)) = tl (faults s)"
  using assms by (simp_all add: session_rollback_def round_trip_def)

lemma raise_fault_not_domain [simp]: "\<not> domain_error (raise_fault f)"
  by (cases f) simp_all

lemma create_member_except_cases:
  assumes "create_member_except l e s = (r, s')"
  obtains (rolled) "next_fault s = None" "r = Inl (create_member_reraise l e)" "db s' = db s"
      "txn s' = db s" "log s' = log s @ [Ev_rollback]" "faults s' = tl (faults s)"
  | (raised) f where "next_fault s = Some f" "r = Inl (raise_fault f)" "db s' = db s"
      "txn s' = txn s" "log s' = log s @ [Ev_rollback_failed]" "faults s' = tl (faults s)"
proof (cases "next_fault s")
  case None
  note ok = session_rollback_ok [OF None]
  from assms ok(1) have "r = Inl (create_member_reraise l e)" "s' = snd (session_rollback s)"
    by (auto simp: create_member_except_def split: prod.splits sum.splits)
  with ok None show thesis by (intro rolled) simp_all
next
  case (Some f)
  note ko = session_rollback_raises [OF Some]
  from assms ko(1) have "r = Inl (raise_fault f)" "s' = snd (session_rollback s)"
    by (auto simp: create_member_except_def split: prod.splits sum.splits)
  with ko Some show thesis by (intro raised) simp_all
qed

lemma update_member_except_cases:
  assumes "update_member_except l e s = (r, s')"
  obtains (rolled) "next_fault s = None" "r = Inl (update_member_reraise l e)" "db s' = db s"
      "txn s' = db s" "log s' = log s @ [Ev_rollback]" "faults s' = tl (faults s)"
  | (raised) f where "next_fault s = Some f" "r = Inl (raise_fault f)" "db s' = db s"
      "txn s' = txn s" "log s' = log s @ [Ev_rollback_failed]" "faults s' = tl (faults s)"
proof (cases "next_fault s")
  case None
  note ok = session_rollback_ok [OF None]
  from assms ok(1) have "r = Inl (update_member_reraise l e)" "s' = snd (session_rollback s)"
    by (auto simp: update_member_except_def split: prod.splits sum.splits)
  with ok None show thesis by (intro rolled) simp_all
next
  case (Some f)
  note ko = session_rollback_raises [OF Some]
  from assms ko(1) have "r = Inl (raise_fault f)" "s' = snd (session_rollback s)"
    by (auto simp: update_member_except_def split: prod.splits sum.splits)
  with ko Some show thesis by (intro raised) simp_all
qed

lemma delete_member_except_cases:
  assumes "delete_member_except e s = (r, s')"
  obtains (rolled) "next_fault s = None" "r = Inl (delete_member_reraise e)" "db s' = db s"
      "txn s' = db s" "log s' = log s @ [Ev_rollback]" "faults s' = tl (faults s)"
  | (raised) f where "next_fault s = Some f" "r = Inl (raise_fault f)" "db s' = db s"
      "txn s' = txn s" "log s' = log s @ [Ev_rollback_failed]" "faults s' = tl (faults s)"
proof (cases "next_fault s")
  case None
  note ok = session_rollback_ok [OF None]
  from assms ok(1) have "r = Inl (delete_member_reraise e)" "s' = snd (session_rollback s)"
    by (auto simp: delete_member_except_def split: prod.splits sum.splits)
  with ok None show thesis by (intro rolled) simp_all
next
  case (Some f)
  note ko = session_rollback_raises [OF Some]
  from assms ko(1) have "r = Inl (raise_fault f)" "s' = snd (session_rollback s)"
    by (auto simp: delete_member_except_def split: prod.splits sum.splits)
  with ko Some show thesis by (intro raised) simp_all
qed




lemma guarded_value [simp]: "guarded (Inr x, s)"
  by (simp add: guarded_def)

















section \<open>Rollback on failure\<close>

lemma session_select_first_snd:
  "snd (session_select_first col v s) = snd (round_trip (record_event (Ev_select col v) s))"
  by (simp add: session_select_first_def split: prod.splits option.splits)

lemma session_get_snd:
  "snd (session_get i s) = snd (round_trip (record_event (Ev_get i) s))"
  by (simp add: session_get_def split: prod.splits option.splits)

lemma session_refresh_snd:
  "snd (session_refresh obj s) = snd (round_trip (record_event Ev_refresh s))"
  by (simp add: session_refresh_def split: prod.splits option.splits)

lemma reraise_snd [simp]: "snd (reraise_as_database_error operation r) = snd r"
  by (simp add: reraise_as_database_error_def split: prod.splits sum.splits)

lemma get_member_by_email_state:
  assumes "get_member_by_email s v = (r, s')"
  shows "db s' = db s" "txn s' = txn s" "log s' = log s @ [Ev_select Email_col (py_lower v)]"
    "faults s' = tl (faults s)"
proof -
  from assms have "s' = snd (get_member_by_email s v)" by simp
  then show "db s' = db s" "txn s' = txn s" "log s' = log s @ [Ev_select Email_col (py_lower v)]"
    "faults s' = tl (faults s)"
    by (simp_all add: get_member_by_email_def session_select_first_snd)
qed

lemma get_member_by_phone_state:
  assumes "get_member_by_phone s v = (r, s')"
  shows "db s' = db s" "txn s' = txn s" "log s' = log s @ [Ev_select Phone_col v]"
    "faults s' = tl (faults s)"
proof -
  from assms have "s' = snd (get_member_by_phone s v)" by simp
  then show "db s' = db s" "txn s' = txn s" "log s' = log s @ [Ev_select Phone_col v]"
    "faults s' = tl (faults s)"
    by (simp_all add: get_member_by_phone_def session_select_first_snd)
qed

lemma get_member_by_id_state:
  assumes "get_member_by_id s i = (r, s')"
  shows "db s' = db s" "txn s' = txn s" "log s' = log s @ [Ev_get i]"
    "faults s' = tl (faults s)"
proof -
  from assms have "s' = snd (get_member_by_id s i)" by simp
  then show "db s' = db s" "txn s' = txn s" "log s' = log s @ [Ev_get i]"
    "faults s' = tl (faults s)"
    by (simp_all add: get_member_by_id_def session_get_snd)
qed

lemma session_commit_state:
  assumes "session_commit s = (r, s')"
  shows "txn s' = txn s" "log s' = log s @ [Ev_commit]" "faults s' = tl (faults s)"
    "db s' = (case r of Inl e \<Rightarrow> db s | Inr u \<Rightarrow> txn s)"
  using assms
  by (auto simp: session_commit_def round_trip_def split: prod.splits option.splits)

lemma session_refresh_state:
  assumes "session_refresh obj s = (r, s')"
  shows "db s' = db s" "txn s' = txn s" "log s' = log s @ [Ev_refresh]"
    "faults s' = tl (faults s)"
proof -
  from assms have "s' = snd (session_refresh obj s)" by simp
  then show "db s' = db s" "txn s' = txn s" "log s' = log s @ [Ev_refresh]"
    "faults s' = tl (faults s)"
    by (simp_all add: session_refresh_snd)
qed

lemma session_add_new_state:
  assumes "session_add_new n e p s = (obj, s')"
  shows "db s' = db s" "log s' = log s @ [Ev_add]" "faults s' = faults s"
    "txn s' = txn s @ [obj]" "obj = \<lparr>m_id = fresh_id (txn s), m_name = n, m_email = e, m_phone = p\<rparr>"
  using assms by (auto simp: session_add_new_def Let_def)

lemma session_add_dirty_state [simp]:
  "db (session_add_dirty obj s) = db s" "log (session_add_dirty obj s) = log s @ [Ev_add]"
  "faults (session_add_dirty obj s) = faults s"
  "txn (session_add_dirty obj s) = map (\<lambda>r. if m_id r = m_id obj then obj else r) (txn s)"
  by (simp_all add: session_add_dirty_def)

lemma session_delete_state [simp]:
  "db (session_delete obj s) = db s" "log (session_delete obj s) = log s @ [Ev_delete]"
  "faults (session_delete obj s) = faults s"
  "txn (session_delete obj s) = filter (\<lambda>r. m_id r \<noteq> m_id obj) (txn s)"
  by (simp_all add: session_delete_def)

text \<open>An except clause entered from a state whose log extends the log at the call.\<close>

lemma rolled_back_after:
  assumes "log s1 = log s @ evs" "Ev_refresh \<notin> set evs \<longrightarrow> db s1 = db s"
    and "db s' = db s1" "txn s' = db s1" "log s' = log s1 @ [Ev_rollback]"
  shows "rolled_back s s'"
  using assms by (auto simp: rolled_back_def)

lemma create_member_except_rolled_back:
  assumes "create_member_except l e s1 = (Inl x, s')" "log s1 = log s @ evs"
    "Ev_refresh \<notin> set evs \<longrightarrow> db s1 = db s" "domain_error x"
  shows "rolled_back s s'"
  using assms(1)
proof (cases rule: create_member_except_cases)
  case rolled
  then show ?thesis using rolled_back_after [OF assms(2,3)] by simp
next
  case (raised f)
  with assms(4) show ?thesis by simp
qed

lemma update_member_except_rolled_back:
  assumes "update_member_except l e s1 = (Inl x, s')" "log s1 = log s @ evs"
    "Ev_refresh \<notin> set evs \<longrightarrow> db s1 = db s" "domain_error x"
  shows "rolled_back s s'"
  using assms(1)
proof (cases rule: update_member_except_cases)
  case rolled
  then show ?thesis using rolled_back_after [OF assms(2,3)] by simp
next
  case (raised f)
  with assms(4) show ?thesis by simp
qed

lemma delete_member_except_rolled_back:
  assumes "delete_member_except e s1 = (Inl x, s')" "log s1 = log s @ evs" "db s1 = db s"
    "domain_error x"
  shows "rolled_back s s' \<and> db s' = db s"
  using assms(1)
proof (cases rule: delete_member_except_cases)
  case rolled
  then show ?thesis using rolled_back_after [of s1 s evs s'] assms(2,3) by simp
next
  case (raised f)
  with assms(4) show ?thesis by simp
qed

lemma create_member_write_rolled_back:
  assumes "create_member_write n e p s1 = (Inl x, s')" "log s1 = log s @ evs" "db s1 = db s"
    "Ev_refresh \<notin> set evs" "domain_error x"
  shows "rolled_back s s'"
proof -
  obtain obj s2 where add: "session_add_new n e p s1 = (obj, s2)" by (cases "session_add_new n e p s1")
  obtain r3 s3 where com: "session_commit s2 = (r3, s3)" by (cases "session_commit s2")
  note a = session_add_new_state [OF add] and c = session_commit_state [OF com]
  show ?thesis
  proof (cases r3)
    case (Inl e3)
    with assms(1) add com have "create_member_except (Some (e, p)) e3 s3 = (Inl x, s')"
      by (simp add: create_member_write_def)
    then show ?thesis
      by (rule create_member_except_rolled_back [where evs = "evs @ [Ev_add, Ev_commit]"])
         (use a c assms Inl in simp_all)
  next
    case (Inr u)
    obtain r4 s4 where ref: "session_refresh obj s3 = (r4, s4)" by (cases "session_refresh obj s3")
    note r = session_refresh_state [OF ref]
    from assms(1) add com Inr ref obtain e4 where e4: "r4 = Inl e4"
      by (cases r4) (auto simp: create_member_write_def)
    with assms(1) add com Inr ref have "create_member_except (Some (e, p)) e4 s4 = (Inl x, s')"
      by (simp add: create_member_write_def)
    then show ?thesis
      by (rule create_member_except_rolled_back [where evs = "evs @ [Ev_add, Ev_commit, Ev_refresh]"])
         (use a c r assms in simp_all)
  qed
qed

lemma create_member_rolled_back:
  assumes "create_member s d = (Inl x, s')" and dom: "domain_error x"
  shows "rolled_back s s'"
proof (cases "validate_member_data (PyStr (c_name d)) (PyStr (c_email d)) (py_optional_str (c_phone d))")
  case (Inl e)
  with assms have "create_member_except None e s = (Inl x, s')"
    by (simp add: create_member_def)
  then show ?thesis
    by (rule create_member_except_rolled_back [where evs = "[]"]) (use dom in simp_all)
next
  case (Inr v)
  obtain vn ve vp where v: "v = (vn, ve, vp)" by (cases v)
  obtain r1 s1 where g1: "get_member_by_email s ve = (r1, s1)" by (cases "get_member_by_email s ve")
  note st1 = get_member_by_email_state [OF g1]
  let ?ev1 = "[Ev_select Email_col (py_lower ve)]"
  have ex1: "rolled_back s s'" if "create_member_except l e s1 = (Inl x, s')" for l e
    by (rule create_member_except_rolled_back [OF that, where evs = ?ev1]) (use st1 dom in simp_all)
  have w1: "rolled_back s s'" if "create_member_write vn ve vp s1 = (Inl x, s')"
    by (rule create_member_write_rolled_back [OF that, where evs = ?ev1]) (use st1 dom in simp_all)
  show ?thesis
  proof (cases r1)
    case (Inl e1)
    with assms Inr v g1 have "create_member_except (Some (ve, vp)) e1 s1 = (Inl x, s')"
      by (simp add: create_member_def)
    then show ?thesis by (rule ex1)
  next
    case r1: (Inr found)
    show ?thesis
    proof (cases found)
      case (Some m)
      with assms Inr v g1 r1
      have "create_member_except (Some (ve, vp)) (MemberAlreadyExistsError ''email'' (Some ve)) s1 = (Inl x, s')"
        by (simp add: create_member_def)
      then show ?thesis by (rule ex1)
    next
      case None
      show ?thesis
      proof (cases "vp = None \<or> vp = Some []")
        case True
        with assms Inr v g1 r1 None have "create_member_write vn ve vp s1 = (Inl x, s')"
          by (auto simp: create_member_def)
        then show ?thesis by (rule w1)
      next
        case False
        then obtain p where p: "vp = Some p" "p \<noteq> []" by auto
        obtain r2 s2 where g2: "get_member_by_phone s1 p = (r2, s2)" by (cases "get_member_by_phone s1 p")
        note st2 = get_member_by_phone_state [OF g2]
        let ?ev2 = "[Ev_select Email_col (py_lower ve), Ev_select Phone_col p]"
        have ex2: "rolled_back s s'" if "create_member_except l e s2 = (Inl x, s')" for l e
          by (rule create_member_except_rolled_back [OF that, where evs = ?ev2]) (use st1 st2 dom in simp_all)
        have w2: "rolled_back s s'" if "create_member_write vn ve vp s2 = (Inl x, s')"
          by (rule create_member_write_rolled_back [OF that, where evs = ?ev2]) (use st1 st2 dom in simp_all)
        show ?thesis
        proof (cases r2)
          case (Inl e2)
          with assms Inr v g1 r1 None p g2 have "create_member_except (Some (ve, vp)) e2 s2 = (Inl x, s')"
            by (simp add: create_member_def)
          then show ?thesis by (rule ex2)
        next
          case r2: (Inr found2)
          show ?thesis
          proof (cases found2)
            case (Some m2)
            with assms Inr v g1 r1 None p g2 r2
            have "create_member_except (Some (ve, vp)) (MemberAlreadyExistsError ''phone'' (Some p)) s2 = (Inl x, s')"
              by (simp add: create_member_def)
            then show ?thesis by (rule ex2)
          next
            case None2: None
            with assms Inr v g1 r1 None p g2 r2 have "create_member_write vn ve vp s2 = (Inl x, s')"
              by (simp add: create_member_def)
            then show ?thesis by (rule w2)
          qed
        qed
      qed
    qed
  qed
qed

lemma update_member_email_state:
  assumes "update_member_email s i d = (r, s')"
  shows "db s' = db s" "txn s' = txn s" "\<exists>evs. log s' = log s @ evs \<and> Ev_refresh \<notin> set evs"
proof -
  have "db s' = db s \<and> txn s' = txn s \<and> (\<exists>evs. log s' = log s @ evs \<and> Ev_refresh \<notin> set evs)"
  proof (cases "u_email d")
    case None
    with assms show ?thesis by (simp add: update_member_email_def)
  next
    case (Some e)
    show ?thesis
    proof (cases "validate_member_data (PyStr ''Dummy'') (PyStr e) PyNone")
      case (Inl x)
      with assms Some show ?thesis by (simp add: update_member_email_def)
    next
      case (Inr v)
      obtain vn ve vp where v: "v = (vn, ve, vp)" by (cases v)
      obtain r1 s1 where g: "get_member_by_email s ve = (r1, s1)" by (cases "get_member_by_email s ve")
      note st = get_member_by_email_state [OF g]
      from assms Some Inr v g have "s' = s1"
        by (auto simp: update_member_email_def split: sum.splits option.splits if_splits)
      with st show ?thesis by simp
    qed
  qed
  then show "db s' = db s" "txn s' = txn s" "\<exists>evs. log s' = log s @ evs \<and> Ev_refresh \<notin> set evs"
    by simp_all
qed

lemma update_member_phone_state:
  assumes "update_member_phone s i d = (r, s')"
  shows "db s' = db s" "txn s' = txn s" "\<exists>evs. log s' = log s @ evs \<and> Ev_refresh \<notin> set evs"
proof -
  have "db s' = db s \<and> txn s' = txn s \<and> (\<exists>evs. log s' = log s @ evs \<and> Ev_refresh \<notin> set evs)"
  proof (cases "u_phone d")
    case None
    with assms show ?thesis by (simp add: update_member_phone_def)
  next
    case (Some p)
    show ?thesis
    proof (cases "validate_member_data (PyStr ''Dummy'') (PyStr ''dummy@example.com'') (PyStr p)")
      case (Inl x)
      with assms Some show ?thesis by (simp add: update_member_phone_def)
    next
      case (Inr v)
      obtain vn ve vp where v: "v = (vn, ve, vp)" by (cases v)
      show ?thesis
      proof (cases "vp = None \<or> vp = Some []")
        case True
        with assms Some Inr v have "s' = s" by (auto simp: update_member_phone_def)
        then show ?thesis by simp
      next
        case False
        then obtain q where q: "vp = Some q" "q \<noteq> []" by auto
        obtain r1 s1 where g: "get_member_by_phone s q = (r1, s1)" by (cases "get_member_by_phone s q")
        note st = get_member_by_phone_state [OF g]
        from assms Some Inr v q g have "s' = s1"
          by (auto simp: update_member_phone_def split: sum.splits option.splits if_splits)
        with st show ?thesis by simp
      qed
    qed
  qed
  then show "db s' = db s" "txn s' = txn s" "\<exists>evs. log s' = log s @ evs \<and> Ev_refresh \<notin> set evs"
    by simp_all
qed

lemma update_member_write_rolled_back:
  assumes "update_member_write ud m s1 = (Inl x, s')" "log s1 = log s @ evs" "db s1 = db s"
    "Ev_refresh \<notin> set evs" "domain_error x"
  shows "rolled_back s s'"
proof -
  let ?obj = "apply_update_data ud m"
  let ?s2 = "session_add_dirty ?obj s1"
  obtain r3 s3 where com: "session_commit ?s2 = (r3, s3)" by (cases "session_commit ?s2")
  note c = session_commit_state [OF com]
  show ?thesis
  proof (cases r3)
    case (Inl e3)
    with assms(1) com have "update_member_except (Some ud) e3 s3 = (Inl x, s')"
      by (simp add: update_member_write_def Let_def)
    then show ?thesis
      by (rule update_member_except_rolled_back [where evs = "evs @ [Ev_add, Ev_commit]"])
         (use c assms Inl in simp_all)
  next
    case (Inr u)
    obtain r4 s4 where ref: "session_refresh ?obj s3 = (r4, s4)" by (cases "session_refresh ?obj s3")
    note r = session_refresh_state [OF ref]
    from assms(1) com Inr ref obtain e4 where e4: "r4 = Inl e4"
      by (cases r4) (auto simp: update_member_write_def Let_def)
    with assms(1) com Inr ref have "update_member_except (Some ud) e4 s4 = (Inl x, s')"
      by (simp add: update_member_write_def Let_def)
    then show ?thesis
      by (rule update_member_except_rolled_back [where evs = "evs @ [Ev_add, Ev_commit, Ev_refresh]"])
         (use c r assms in simp_all)
  qed
qed

lemma update_member_rolled_back:
  assumes "update_member s i d = (Inl x, s')" and dom: "domain_error x"
  shows "rolled_back s s'"
proof -
  obtain r1 s1 where g: "get_member_by_id s i = (r1, s1)" by (cases "get_member_by_id s i")
  note st1 = get_member_by_id_state [OF g]
  have ex1: "rolled_back s s'" if "update_member_except l e s1 = (Inl x, s')" for l e
    by (rule update_member_except_rolled_back [OF that, where evs = "[Ev_get i]"]) (use st1 dom in simp_all)
  show ?thesis
  proof (cases r1)
    case (Inl e1)
    with assms g have "update_member_except None e1 s1 = (Inl x, s')"
      by (simp add: update_member_def)
    then show ?thesis by (rule ex1)
  next
    case r1: (Inr found)
    show ?thesis
    proof (cases found)
      case None
      with assms g r1
      have "update_member_except None (MemberNotFoundError ''id'' (py_str_int i)) s1 = (Inl x, s')"
        by (simp add: update_member_def)
      then show ?thesis by (rule ex1)
    next
      case (Some existing)
      show ?thesis
      proof (cases "update_member_name d")
        case (Inl e2)
        with assms g r1 Some have "update_member_except (Some empty_update_data) e2 s1 = (Inl x, s')"
          by (simp add: update_member_def)
        then show ?thesis by (rule ex1)
      next
        case nm: (Inr nm)
        obtain r2 s2 where em: "update_member_email s1 i d = (r2, s2)"
          by (cases "update_member_email s1 i d")
        from update_member_email_state [OF em] obtain evs2
          where st2: "db s2 = db s1" "log s2 = log s1 @ evs2" "Ev_refresh \<notin> set evs2" by auto
        have ex2: "rolled_back s s'" if "update_member_except l e s2 = (Inl x, s')" for l e
          by (rule update_member_except_rolled_back [OF that, where evs = "Ev_get i # evs2"])
             (use st1 st2 dom in simp_all)
        show ?thesis
        proof (cases r2)
          case (Inl e3)
          with assms g r1 Some nm em
          have "update_member_except (Some (empty_update_data\<lparr>ud_name := nm\<rparr>)) e3 s2 = (Inl x, s')"
            by (simp add: update_member_def Let_def)
          then show ?thesis by (rule ex2)
        next
          case r2: (Inr emv)
          obtain r3 s3 where ph: "update_member_phone s2 i d = (r3, s3)"
            by (cases "update_member_phone s2 i d")
          from update_member_phone_state [OF ph] obtain evs3
            where st3: "db s3 = db s2" "log s3 = log s2 @ evs3" "Ev_refresh \<notin> set evs3" by auto
          show ?thesis
          proof (cases r3)
            case (Inl e4)
            with assms g r1 Some nm em r2 ph
            have "update_member_except (Some (empty_update_data\<lparr>ud_name := nm, ud_email := emv\<rparr>)) e4 s3
                  = (Inl x, s')"
              by (simp add: update_member_def Let_def)
            then show ?thesis
              by (rule update_member_except_rolled_back [where evs = "Ev_get i # evs2 @ evs3"])
                 (use st1 st2 st3 dom in simp_all)
          next
            case r3: (Inr phv)
            with assms g r1 Some nm em r2 ph
            have "update_member_write (empty_update_data\<lparr>ud_name := nm, ud_email := emv, ud_phone := phv\<rparr>)
                    existing s3 = (Inl x, s')"
              by (simp add: update_member_def Let_def)
            then show ?thesis
              by (rule update_member_write_rolled_back [where evs = "Ev_get i # evs2 @ evs3"])
                 (use st1 st2 st3 dom in simp_all)
          qed
        qed
      qed
    qed
  qed
qed

lemma delete_member_rolled_back:
  assumes "delete_member s i = (Inl x, s')" and dom: "domain_error x"
  shows "rolled_back s s' \<and> db s' = db s"
proof -
  obtain r1 s1 where g: "get_member_by_id s i = (r1, s1)" by (cases "get_member_by_id s i")
  note st1 = get_member_by_id_state [OF g]
  have ex1: "rolled_back s s' \<and> db s' = db s" if "delete_member_except e s1 = (Inl x, s')" for e
    by (rule delete_member_except_rolled_back [OF that, where evs = "[Ev_get i]"]) (use st1 dom in simp_all)
  show ?thesis
  proof (cases r1)
    case (Inl e1)
    with assms g have "delete_member_except e1 s1 = (Inl x, s')"
      by (simp add: delete_member_def)
    then show ?thesis by (rule ex1)
  next
    case r1: (Inr found)
    show ?thesis
    proof (cases found)
      case None
      with assms g r1
      have "delete_member_except (MemberNotFoundError ''id'' (py_str_int i)) s1 = (Inl x, s')"
        by (simp add: delete_member_def)
      then show ?thesis by (rule ex1)
    next
      case (Some existing)
      obtain r2 s2 where com: "session_commit (session_delete existing s1) = (r2, s2)"
        by (cases "session_commit (session_delete existing s1)")
      note c = session_commit_state [OF com]
      from assms g r1 Some com obtain e2 where e2: "r2 = Inl e2"
        by (cases r2) (auto simp: delete_member_def)
      with assms g r1 Some com have "delete_member_except e2 s2 = (Inl x, s')"
        by (simp add: delete_member_def)
      then show ?thesis
        by (rule delete_member_except_rolled_back [where evs = "[Ev_get i, Ev_delete, Ev_commit]"])
           (use st1 c e2 dom in simp_all)
    qed
  qed
qed

text \<open>
  C2 (amended): when \<open>create_member\<close>, \<open>update_member\<close> or \<open>delete_member\<close> fails with
  one of the four kinds of error, the session has been rolled back before the error
  leaves the operation, and the store holds what it held before the call whenever the
  failure came no later than the commit; a failed \<open>delete_member\<close> always leaves the
  store as it was.
\<close>

theorem failed_write_rolls_back:
  "(create_member s member_data = (Inl e, s') \<and> domain_error e \<longrightarrow> rolled_back s s')
   \<and> (update_member s member_id update = (Inl e, s') \<and> domain_error e \<longrightarrow> rolled_back s s')
   \<and> (delete_member s member_id = (Inl e, s') \<and> domain_error e
        \<longrightarrow> rolled_back s s' \<and> db s' = db s)"
  using create_member_rolled_back update_member_rolled_back delete_member_rolled_back by blast

text \<open>
  The amended C2 at a \<open>create_member\<close> that meets a taken email and at an
  \<open>update_member\<close> and a \<open>delete_member\<close> of a member that does not exist.
\<close>

theorem failed_write_rolls_back_witness:
  "fst (create_member example_session \<lparr>c_name = ''Jane Doe'', c_email = ''JOHN@example.com'', c_phone = None\<rparr>)
     = Inl (MemberAlreadyExistsError ''email'' (Some ''john@example.com''))
   \<and> rolled_back example_session
        (snd (create_member example_session \<lparr>c_name = ''Jane Doe'', c_email = ''JOHN@example.com'', c_phone = None\<rparr>))
   \<and> fst (update_member example_session 999 \<lparr>u_name = Some ''John Smith'', u_email = None, u_phone = None\<rparr>)
     = Inl (MemberNotFoundError ''id'' ''999'')
   \<and> rolled_back example_session
        (snd (update_member example_session 999 \<lparr>u_name = Some ''John Smith'', u_email = None, u_phone = None\<rparr>))
   \<and> fst (delete_member example_session 999) = Inl (MemberNotFoundError ''id'' ''999'')
   \<and> rolled_back example_session (snd (delete_member example_session 999))
   \<and> db (snd (delete_member example_session 999)) = db example_session"
proof -
  let ?d = "\<lparr>c_name = ''Jane Doe'', c_email = ''JOHN@example.com'', c_phone = None\<rparr>"
  let ?u = "\<lparr>u_name = Some ''John Smith'', u_email = None, u_phone = None\<rparr>"
  have c: "fst (create_member example_session ?d)
            = Inl (MemberAlreadyExistsError ''email'' (Some ''john@example.com''))"
    by code_simp
  have u: "fst (update_member example_session 999 ?u) = Inl (MemberNotFoundError ''id'' ''999'')"
    by code_simp
  have d: "fst (delete_member example_session 999) = Inl (MemberNotFoundError ''id'' ''999'')"
    by code_simp
  have c': "create_member example_session ?d
            = (Inl (MemberAlreadyExistsError ''email'' (Some ''john@example.com'')),
               snd (create_member example_session ?d))"
    using c by (simp add: prod_eq_iff)
  have u': "update_member example_session 999 ?u
            = (Inl (MemberNotFoundError ''id'' ''999''), snd (update_member example_session 999 ?u))"
    using u by (simp add: prod_eq_iff)
  have d': "delete_member example_session 999
            = (Inl (MemberNotFoundError ''id'' ''999''), snd (delete_member example_session 999))"
    using d by (simp add: prod_eq_iff)
  from failed_write_rolls_back [where s = example_session and member_data = ?d
      and e = "MemberAlreadyExistsError ''email'' (Some ''john@example.com'')"
      and s' = "snd (create_member example_session ?d)"] c'
  have 1: "rolled_back example_session (snd (create_member example_session ?d))" by simp
  from failed_write_rolls_back [where s = example_session and member_id = 999 and update = ?u
      and e = "MemberNotFoundError ''id'' ''999''"
      and s' = "snd (update_member example_session 999 ?u)"] u'
  have 2: "rolled_back example_session (snd (update_member example_session 999 ?u))" by simp
  from failed_write_rolls_back [where s = example_session and member_id = 999
      and e = "MemberNotFoundError ''id'' ''999''"
      and s' = "snd (delete_member example_session 999)"] d'
  have 3: "rolled_back example_session (snd (delete_member example_session 999))
           \<and> db (snd (delete_member example_session 999)) = db example_session" by simp
  from c u d 1 2 3 show ?thesis by blast
qed

text \<open>
  C2, as stated, fails on the code: when the commit of \<open>create_member\<close> succeeds and
  the refresh after it raises, the operation fails with \<open>DatabaseOperationError\<close>
  although the new row is in the store; the rollback comes after the commit and undoes
  nothing.
\<close>

theorem create_member_refresh_failure_counterexample:
  "fst (create_member (empty_session\<lparr>faults := [None, None, Some (Other_fault ''connection lost'')]\<rparr>)
          \<lparr>c_name = ''John Doe'', c_email = ''john@example.com'', c_phone = None\<rparr>)
     = Inl (DatabaseOperationError ''create_member'')
   \<and> db (empty_session\<lparr>faults := [None, None, Some (Other_fault ''connection lost'')]\<rparr>) = []
   \<and> db (snd (create_member (empty_session\<lparr>faults := [None, None, Some (Other_fault ''connection lost'')]\<rparr>)
          \<lparr>c_name = ''John Doe'', c_email = ''john@example.com'', c_phone = None\<rparr>))
     = [\<lparr>m_id = 1, m_name = ''John Doe'', m_email = ''john@example.com'', m_phone = None\<rparr>]"
  by code_simp


section \<open>The steps of create_member\<close>

lemma column_value_email [simp]: "(column_value Email_col m = Some v) = (m_email m = v)"
  by simp

lemma get_member_by_email_result:
  assumes "get_member_by_email s v = (r, s')"
  shows "r = (case next_fault s of
                None \<Rightarrow> Inr (find (\<lambda>m. m_email m = py_lower v) (txn s))
              | Some f \<Rightarrow> Inl (DatabaseOperationError ''get_member_by_email''))"
  using assms
  by (auto simp: get_member_by_email_def session_select_first_def round_trip_def
      reraise_as_database_error_def next_fault_def record_event_def split: option.splits list.splits)

lemma get_member_by_phone_result:
  assumes "get_member_by_phone s v = (r, s')"
  shows "r = (case next_fault s of
                None \<Rightarrow> Inr (find (\<lambda>m. m_phone m = Some v) (txn s))
              | Some f \<Rightarrow> Inl (DatabaseOperationError ''get_member_by_phone''))"
  using assms
  by (auto simp: get_member_by_phone_def session_select_first_def round_trip_def
      reraise_as_database_error_def next_fault_def record_event_def split: option.splits list.splits)

lemma get_member_by_id_result:
  assumes "get_member_by_id s i = (r, s')"
  shows "r = (case next_fault s of
                None \<Rightarrow> Inr (find (\<lambda>m. m_id m = i) (txn s))
              | Some f \<Rightarrow> Inl (DatabaseOperationError ''get_member_by_id''))"
  using assms
  by (auto simp: get_member_by_id_def session_get_def round_trip_def
      reraise_as_database_error_def next_fault_def record_event_def split: option.splits list.splits)

lemma session_commit_result:
  assumes "session_commit s = (r, s')"
  shows "r = (case next_fault s of None \<Rightarrow> Inr () | Some f \<Rightarrow> Inl (raise_fault f))"
  using assms
  by (auto simp: session_commit_def round_trip_def next_fault_def record_event_def
      split: option.splits list.splits)

lemma session_refresh_result:
  assumes "session_refresh obj s = (r, s')"
  shows "r = (case next_fault s of
                None \<Rightarrow> (case find (\<lambda>m. m_id m = m_id obj) (txn s) of
                           None \<Rightarrow> Inl (StoreException ''Could not refresh instance'')
                         | Some m \<Rightarrow> Inr m)
              | Some f \<Rightarrow> Inl (raise_fault f))"
  using assms
  by (auto simp: session_refresh_def round_trip_def next_fault_def record_event_def
      split: option.splits list.splits)

lemma fold_max_ge: "(a::int) \<le> fold max xs a \<and> (\<forall>x\<in>set xs. x \<le> fold max xs a)"
proof (induction xs arbitrary: a)
  case Nil
  then show ?case by simp
next
  case (Cons x xs)
  have "max x a \<le> fold max xs (max x a)" using Cons.IH [of "max x a"] by simp
  then show ?case using Cons.IH [of "max x a"] by auto
qed

lemma fresh_id_greater: "r \<in> set rs \<Longrightarrow> m_id r < fresh_id rs"
proof (cases rs)
  case Nil
  then show "r \<in> set rs \<Longrightarrow> ?thesis" by simp
next
  case (Cons a as)
  assume "r \<in> set rs"
  with Cons have "m_id r \<le> fold max (map m_id as) (m_id a)"
    using fold_max_ge [of "m_id a" "map m_id as"] by auto
  with Cons show ?thesis by (simp add: fresh_id_def)
qed

lemma find_append_new:
  assumes "\<forall>r\<in>set rs. \<not> P r" "P x"
  shows "find P (rs @ [x]) = Some x"
  using assms by (induction rs) auto

lemma find_fresh_row:
  "find (\<lambda>m. m_id m = fresh_id rs) (rs @ [\<lparr>m_id = fresh_id rs, m_name = n, m_email = e, m_phone = p\<rparr>])
   = Some \<lparr>m_id = fresh_id rs, m_name = n, m_email = e, m_phone = p\<rparr>"
proof (rule find_append_new)
  show "\<forall>r\<in>set rs. \<not> m_id r = fresh_id rs" using fresh_id_greater by fastforce
qed simp

lemma get_member_by_email_ok:
  assumes "next_fault s = None"
  obtains s1 where "get_member_by_email s v = (Inr (find (\<lambda>m. m_email m = py_lower v) (txn s)), s1)"
    "db s1 = db s" "txn s1 = txn s" "log s1 = log s @ [Ev_select Email_col (py_lower v)]"
    "faults s1 = tl (faults s)"
proof -
  obtain r s1 where g: "get_member_by_email s v = (r, s1)" by (cases "get_member_by_email s v")
  from get_member_by_email_result [OF g] assms
  have "r = Inr (find (\<lambda>m. m_email m = py_lower v) (txn s))" by simp
  with g get_member_by_email_state [OF g] that show thesis by simp
qed

lemma get_member_by_phone_ok:
  assumes "next_fault s = None"
  obtains s1 where "get_member_by_phone s v = (Inr (find (\<lambda>m. m_phone m = Some v) (txn s)), s1)"
    "db s1 = db s" "txn s1 = txn s" "log s1 = log s @ [Ev_select Phone_col v]"
    "faults s1 = tl (faults s)"
proof -
  obtain r s1 where g: "get_member_by_phone s v = (r, s1)" by (cases "get_member_by_phone s v")
  from get_member_by_phone_result [OF g] assms
  have "r = Inr (find (\<lambda>m. m_phone m = Some v) (txn s))" by simp
  with g get_member_by_phone_state [OF g] that show thesis by simp
qed

lemma get_member_by_id_ok:
  assumes "next_fault s = None"
  obtains s1 where "get_member_by_id s i = (Inr (find (\<lambda>m. m_id m = i) (txn s)), s1)"
    "db s1 = db s" "txn s1 = txn s" "log s1 = log s @ [Ev_get i]"
    "faults s1 = tl (faults s)"
proof -
  obtain r s1 where g: "get_member_by_id s i = (r, s1)" by (cases "get_member_by_id s i")
  from get_member_by_id_result [OF g] assms
  have "r = Inr (find (\<lambda>m. m_id m = i) (txn s))" by simp
  with g get_member_by_id_state [OF g] that show thesis by simp
qed

lemma validate_email_lower: "validate_email v = Inr e \<Longrightarrow> py_lower e = e \<and> e \<noteq> []"
  by (auto simp: validate_email_def Let_def py_lower_idem split: if_splits)

lemma validate_phone_present: "validate_phone v = Inr (Some p) \<Longrightarrow> p \<noteq> []"
  by (auto simp: validate_phone_def Let_def split: if_splits)

lemma validate_member_data_Inr:
  "validate_member_data a b c = Inr (n, e, p) \<longleftrightarrow>
     validate_name a = Inr n \<and> validate_email b = Inr e \<and> validate_phone c = Inr p"
  by (auto simp: validate_member_data_def split: sum.splits)

lemma validate_member_data_Inl:
  "validate_member_data a b c = Inl x \<Longrightarrow> \<exists>f v r. x = InvalidMemberDataError f v r"
  by (rule validate_member_data_error)

lemma create_member_write_success:
  assumes "faults s = []" "create_member_write n e p s = (r, s')"
  shows "r = Inr \<lparr>m_id = fresh_id (txn s), m_name = n, m_email = e, m_phone = p\<rparr>"
    "db s' = txn s @ [\<lparr>m_id = fresh_id (txn s), m_name = n, m_email = e, m_phone = p\<rparr>]"
    "txn s' = db s'" "log s' = log s @ [Ev_add, Ev_commit, Ev_refresh]" "faults s' = []"
proof -
  let ?new = "\<lparr>m_id = fresh_id (txn s), m_name = n, m_email = e, m_phone = p\<rparr>"
  obtain obj s1 where add: "session_add_new n e p s = (obj, s1)" by (cases "session_add_new n e p s")
  note a = session_add_new_state [OF add]
  obtain r2 s2 where com: "session_commit s1 = (r2, s2)" by (cases "session_commit s1")
  note c = session_commit_state [OF com]
  from session_commit_result [OF com] a assms(1) have r2: "r2 = Inr ()" by simp
  obtain r3 s3 where ref: "session_refresh obj s2 = (r3, s3)" by (cases "session_refresh obj s2")
  note rf = session_refresh_state [OF ref]
  have f2: "faults s2 = []" using c a assms(1) by simp
  have "txn s2 = txn s @ [?new]" "obj = ?new" using c a by simp_all
  with session_refresh_result [OF ref] f2 have r3: "r3 = Inr ?new"
    by (simp add: find_fresh_row)
  have "create_member_write n e p s = (Inr ?new, s3)"
    using add com ref r2 r3 by (simp add: create_member_write_def)
  with assms(2) have eq: "r = Inr ?new" "s' = s3" by simp_all
  show "r = Inr ?new" by (rule eq)
  show "db s' = txn s @ [?new]" "txn s' = db s'"
    "log s' = log s @ [Ev_add, Ev_commit, Ev_refresh]" "faults s' = []"
    using a c rf r2 f2 eq(2) by simp_all
qed

lemma next_fault_update [simp]: "next_fault (s\<lparr>faults := fs\<rparr>) = (case fs of [] \<Rightarrow> None | f # fs' \<Rightarrow> f)"
  by (simp add: next_fault_def)

lemma next_fault_cong: "faults s1 = faults s2 \<Longrightarrow> next_fault s1 = next_fault s2"
  by (simp add: next_fault_def)

lemma create_member_except_ok:
  assumes "next_fault s = None" and "create_member_except l e s = (r, s')"
  shows "r = Inl (create_member_reraise l e)" "db s' = db s" "txn s' = db s"
    "log s' = log s @ [Ev_rollback]" "faults s' = tl (faults s)"
proof -
  from assms(2) show "r = Inl (create_member_reraise l e)"
    by (cases rule: create_member_except_cases) (use assms(1) in simp_all)
  from assms(2) show "db s' = db s"
    by (cases rule: create_member_except_cases) (use assms(1) in simp_all)
  from assms(2) show "txn s' = db s"
    by (cases rule: create_member_except_cases) (use assms(1) in simp_all)
  from assms(2) show "log s' = log s @ [Ev_rollback]"
    by (cases rule: create_member_except_cases) (use assms(1) in simp_all)
  from assms(2) show "faults s' = tl (faults s)"
    by (cases rule: create_member_except_cases) (use assms(1) in simp_all)
qed

lemma create_member_invalid:
  assumes "validate_member_data (PyStr (c_name d)) (PyStr (c_email d)) (py_optional_str (c_phone d)) = Inl x"
    and "next_fault s = None"
    and "create_member s d = (r, s')"
  shows "r = Inl x" "db s' = db s" "txn s' = db s" "log s' = log s @ [Ev_rollback]"
proof -
  from validate_member_data_error [OF assms(1)] obtain f v w where x: "x = InvalidMemberDataError f v w"
    by blast
  from assms(1,3) have e: "create_member_except None x s = (r, s')" by (simp add: create_member_def)
  note res = create_member_except_ok [OF assms(2) e]
  from res(1) x show "r = Inl x" by simp
  show "db s' = db s" "txn s' = db s" "log s' = log s @ [Ev_rollback]" by (rule res)+
qed

lemma create_member_email_taken:
  assumes "validate_member_data (PyStr (c_name d)) (PyStr (c_email d)) (py_optional_str (c_phone d))
           = Inr (n, e, p)"
    and "faults s = []" and "find (\<lambda>m. m_email m = e) (txn s) = Some m"
    and "create_member s d = (r, s')"
  shows "r = Inl (MemberAlreadyExistsError ''email'' (Some e))" "db s' = db s" "txn s' = db s"
    "log s' = log s @ [Ev_select Email_col e, Ev_rollback]"
proof -
  from assms(1) have low: "py_lower e = e"
    by (auto simp: validate_member_data_Inr dest: validate_email_lower)
  have nf: "next_fault s = None" using assms(2) by simp
  obtain s1 where g: "get_member_by_email s e = (Inr (find (\<lambda>m. m_email m = py_lower e) (txn s)), s1)"
    and st: "db s1 = db s" "txn s1 = txn s" "log s1 = log s @ [Ev_select Email_col (py_lower e)]"
      "faults s1 = tl (faults s)"
    by (rule get_member_by_email_ok [OF nf])
  have nf1: "next_fault s1 = None" using st assms(2) by simp
  from assms(1,3,4) g low
  have e: "create_member_except (Some (e, p)) (MemberAlreadyExistsError ''email'' (Some e)) s1 = (r, s')"
    by (simp add: create_member_def)
  note res = create_member_except_ok [OF nf1 e]
  from res(1) show "r = Inl (MemberAlreadyExistsError ''email'' (Some e))" by simp
  from res st low show "db s' = db s" "txn s' = db s"
    "log s' = log s @ [Ev_select Email_col e, Ev_rollback]" by simp_all
qed

lemma create_member_phone_taken:
  assumes "validate_member_data (PyStr (c_name d)) (PyStr (c_email d)) (py_optional_str (c_phone d))
           = Inr (n, e, Some ph)"
    and "faults s = []" and "find (\<lambda>m. m_email m = e) (txn s) = None"
    and "find (\<lambda>m. m_phone m = Some ph) (txn s) = Some m"
    and "create_member s d = (r, s')"
  shows "r = Inl (MemberAlreadyExistsError ''phone'' (Some ph))" "db s' = db s" "txn s' = db s"
    "log s' = log s @ [Ev_select Email_col e, Ev_select Phone_col ph, Ev_rollback]"
proof -
  from assms(1) have low: "py_lower e = e" and ph: "ph \<noteq> []"
    by (auto simp: validate_member_data_Inr dest: validate_email_lower validate_phone_present)
  have nf: "next_fault s = None" using assms(2) by simp
  obtain s1 where g: "get_member_by_email s e = (Inr (find (\<lambda>m. m_email m = py_lower e) (txn s)), s1)"
    and st: "db s1 = db s" "txn s1 = txn s" "log s1 = log s @ [Ev_select Email_col (py_lower e)]"
      "faults s1 = tl (faults s)"
    by (rule get_member_by_email_ok [OF nf])
  have nf1: "next_fault s1 = None" using st assms(2) by simp
  obtain s2 where g2: "get_member_by_phone s1 ph = (Inr (find (\<lambda>m. m_phone m = Some ph) (txn s1)), s2)"
    and st2: "db s2 = db s1" "txn s2 = txn s1" "log s2 = log s1 @ [Ev_select Phone_col ph]"
      "faults s2 = tl (faults s1)"
    by (rule get_member_by_phone_ok [OF nf1])
  have nf2: "next_fault s2 = None" using st st2 assms(2) by simp
  from assms(1,3,4,5) g g2 low ph st
  have e: "create_member_except (Some (e, Some ph)) (MemberAlreadyExistsError ''phone'' (Some ph)) s2 = (r, s')"
    by (simp add: create_member_def)
  note res = create_member_except_ok [OF nf2 e]
  from res(1) show "r = Inl (MemberAlreadyExistsError ''phone'' (Some ph))" by simp
  from res st st2 low show "db s' = db s" "txn s' = db s"
    "log s' = log s @ [Ev_select Email_col e, Ev_select Phone_col ph, Ev_rollback]" by simp_all
qed

lemma create_member_reaches_write:
  assumes "validate_member_data (PyStr (c_name d)) (PyStr (c_email d)) (py_optional_str (c_phone d))
           = Inr (n, e, p)"
    and "find (\<lambda>m. m_email m = e) (txn s) = None"
    and "\<forall>ph. p = Some ph \<longrightarrow> find (\<lambda>m. m_phone m = Some ph) (txn s) = None"
    and "faults s = (case p of None \<Rightarrow> [None] | Some ph \<Rightarrow> [None, None]) @ fs \<or> (faults s = [] \<and> fs = [])"
  obtains s2 where "create_member s d = create_member_write n e p s2"
    "db s2 = db s" "txn s2 = txn s" "faults s2 = fs"
    "log s2 = log s @ Ev_select Email_col e # (case p of None \<Rightarrow> [] | Some ph \<Rightarrow> [Ev_select Phone_col ph])"
proof -
  from assms(1) have low: "py_lower e = e"
    by (auto simp: validate_member_data_Inr dest: validate_email_lower)
  have nf: "next_fault s = None" using assms(4) by (auto split: option.splits)
  obtain s1 where g: "get_member_by_email s e = (Inr (find (\<lambda>m. m_email m = py_lower e) (txn s)), s1)"
    and st: "db s1 = db s" "txn s1 = txn s" "log s1 = log s @ [Ev_select Email_col (py_lower e)]"
      "faults s1 = tl (faults s)"
    by (rule get_member_by_email_ok [OF nf])
  show thesis
  proof (cases p)
    case None
    with assms(1,2) g low have "create_member s d = create_member_write n e p s1"
      by (simp add: create_member_def)
    moreover have "faults s1 = fs" using st assms(4) None by auto
    ultimately show thesis using that [of s1] st low None by simp
  next
    case (Some ph)
    with assms(1) have ph: "ph \<noteq> []"
      by (auto simp: validate_member_data_Inr dest: validate_phone_present)
    have f1: "faults s1 = None # fs \<or> (faults s1 = [] \<and> fs = [])" using st assms(4) Some by auto
    then have nf1: "next_fault s1 = None" by auto
    obtain s2 where g2: "get_member_by_phone s1 ph = (Inr (find (\<lambda>m. m_phone m = Some ph) (txn s1)), s2)"
      and st2: "db s2 = db s1" "txn s2 = txn s1" "log s2 = log s1 @ [Ev_select Phone_col ph]"
        "faults s2 = tl (faults s1)"
      by (rule get_member_by_phone_ok [OF nf1])
    from assms(1,2,3) g g2 low ph st Some have "create_member s d = create_member_write n e p s2"
      by (simp add: create_member_def)
    moreover have "faults s2 = fs" using st2 f1 by auto
    ultimately show thesis using that [of s2] st st2 low Some by simp
  qed
qed

lemma create_member_created:
  assumes "validate_member_data (PyStr (c_name d)) (PyStr (c_email d)) (py_optional_str (c_phone d))
           = Inr (n, e, p)"
    and "faults s = []" and "find (\<lambda>m. m_email m = e) (txn s) = None"
    and "\<forall>ph. p = Some ph \<longrightarrow> find (\<lambda>m. m_phone m = Some ph) (txn s) = None"
    and "create_member s d = (r, s')"
  shows "r = Inr \<lparr>m_id = fresh_id (txn s), m_name = n, m_email = e, m_phone = p\<rparr>"
    "db s' = txn s @ [\<lparr>m_id = fresh_id (txn s), m_name = n, m_email = e, m_phone = p\<rparr>]"
    "txn s' = db s'" "faults s' = []"
    "log s' = log s @ Ev_select Email_col e # (case p of None \<Rightarrow> [] | Some ph \<Rightarrow> [Ev_select Phone_col ph])
              @ [Ev_add, Ev_commit, Ev_refresh]"
proof -
  obtain s2 where w: "create_member s d = create_member_write n e p s2"
    and st: "db s2 = db s" "txn s2 = txn s" "faults s2 = []"
      "log s2 = log s @ Ev_select Email_col e # (case p of None \<Rightarrow> [] | Some ph \<Rightarrow> [Ev_select Phone_col ph])"
    by (rule create_member_reaches_write [OF assms(1,3,4), of "[]"]) (use assms(2) in simp_all)
  from w assms(5) have w': "create_member_write n e p s2 = (r, s')" by simp
  note res = create_member_write_success [OF st(3) w']
  show "r = Inr \<lparr>m_id = fresh_id (txn s), m_name = n, m_email = e, m_phone = p\<rparr>"
    "db s' = txn s @ [\<lparr>m_id = fresh_id (txn s), m_name = n, m_email = e, m_phone = p\<rparr>]"
    "txn s' = db s'" "faults s' = []"
    "log s' = log s @ Ev_select Email_col e # (case p of None \<Rightarrow> [] | Some ph \<Rightarrow> [Ev_select Phone_col ph])
              @ [Ev_add, Ev_commit, Ev_refresh]"
    using res st by simp_all
qed

text \<open>
  C1 fails on the code at its last step. A member is created with a phone that no row
  holds when the phone is looked up, and the commit raises the \<open>IntegrityError\<close> of a
  conflict on \<open>members.phone\<close>: another writer has taken the phone in between.
  \<open>create_member\<close> performs its steps in the order of the claim, as the log of the
  session shows, and rolls back. The text of the error names the column \<open>phone\<close> as
  the one that failed and no column \<open>members.email\<close>; it goes on with the \<open>INSERT\<close>
  statement, which lists the columns \<open>name, email, phone\<close>. The handler tests
  \<open>"email" in str(e).lower()\<close> first, finds the word in the statement, and raises
  \<open>MemberAlreadyExistsError\<close> for \<open>email\<close> with the email of the call, not for the
  phone that the store identifies.
\<close>

theorem create_member_phone_conflict_raises_email:
  "py_in ''unique constraint failed: members.phone'' (py_lower phone_conflict_message)
   \<and> \<not> py_in ''members.email'' (py_lower phone_conflict_message)
   \<and> fst (create_member
            (example_session\<lparr>faults := [None, None, Some (Integrity_fault phone_conflict_message)]\<rparr>)
            \<lparr>c_name = ''Jane Smith'', c_email = ''jane@example.com'', c_phone = Some ''+62-812-3456-7890''\<rparr>)
     = Inl (MemberAlreadyExistsError ''email'' (Some ''jane@example.com''))
   \<and> log (snd (create_member
            (example_session\<lparr>faults := [None, None, Some (Integrity_fault phone_conflict_message)]\<rparr>)
            \<lparr>c_name = ''Jane Smith'', c_email = ''jane@example.com'', c_phone = Some ''+62-812-3456-7890''\<rparr>))
     = [Ev_select Email_col ''jane@example.com'', Ev_select Phone_col ''+62-812-3456-7890'',
        Ev_add, Ev_commit, Ev_rollback]
   \<and> db (snd (create_member
            (example_session\<lparr>faults := [None, None, Some (Integrity_fault phone_conflict_message)]\<rparr>)
            \<lparr>c_name = ''Jane Smith'', c_email = ''jane@example.com'', c_phone = Some ''+62-812-3456-7890''\<rparr>))
     = [example_member]"
  by code_simp


section \<open>A created member and its email\<close>

lemma find_None_iff': "find P xs = None \<Longrightarrow> \<forall>x\<in>set xs. \<not> P x"
  by (simp add: find_None_iff)

lemma validate_email_normal_form:
  assumes "validate_email (PyStr x) = Inr y"
  shows "y = py_lower (py_strip x)"
  using assms by (auto simp: validate_email_def Let_def split: if_splits)

lemma validate_email_same_normal_form:
  assumes "validate_email (PyStr x) = Inr y" "py_lower (py_strip x2) = y"
  shows "validate_email (PyStr x2) = Inr y"
proof -
  from assms(1) have y: "y = py_lower (py_strip x)" "y \<noteq> []"
    by (auto simp: validate_email_def Let_def split: if_splits)
  have "py_strip [] = []" by (simp add: py_strip_def)
  with assms(2) y have "x2 \<noteq> []" by (auto simp: py_lower_def)
  with assms y show ?thesis
    by (auto simp: validate_email_def Let_def split: if_splits)
qed

lemma create_member_success_cases:
  assumes "create_member s d = (Inr m, s')" "faults s = []"
  obtains n e p where
    "validate_member_data (PyStr (c_name d)) (PyStr (c_email d)) (py_optional_str (c_phone d)) = Inr (n, e, p)"
    "find (\<lambda>m. m_email m = e) (txn s) = None"
    "\<forall>ph. p = Some ph \<longrightarrow> find (\<lambda>m. m_phone m = Some ph) (txn s) = None"
    "m = \<lparr>m_id = fresh_id (txn s), m_name = n, m_email = e, m_phone = p\<rparr>"
    "db s' = txn s @ [m]" "txn s' = db s'" "faults s' = []"
proof -
  let ?V = "validate_member_data (PyStr (c_name d)) (PyStr (c_email d)) (py_optional_str (c_phone d))"
  have nf: "next_fault s = None" using assms(2) by simp
  show thesis
  proof (cases ?V)
    case (Inl x)
    from create_member_invalid(1) [OF Inl nf assms(1)] show thesis by simp
  next
    case (Inr v)
    obtain n e p where v: "?V = Inr (n, e, p)" using Inr by (cases v) auto
    show thesis
    proof (cases "find (\<lambda>m. m_email m = e) (txn s)")
      case (Some a)
      from create_member_email_taken(1) [OF v assms(2) Some assms(1)] show thesis by simp
    next
      case None
      have ph: "\<forall>ph. p = Some ph \<longrightarrow> find (\<lambda>m. m_phone m = Some ph) (txn s) = None"
      proof (intro allI impI)
        fix ph assume p: "p = Some ph"
        show "find (\<lambda>m. m_phone m = Some ph) (txn s) = None"
        proof (cases "find (\<lambda>m. m_phone m = Some ph) (txn s)")
          case (Some b)
          from create_member_phone_taken(1) [OF v [unfolded p] assms(2) None Some assms(1)]
          show ?thesis by simp
        qed simp
      qed
      note res = create_member_created [OF v assms(2) None ph assms(1)]
      from res(1) have m: "m = \<lparr>m_id = fresh_id (txn s), m_name = n, m_email = e, m_phone = p\<rparr>"
        by simp
      show thesis
        by (rule that [OF v None ph m]) (use res m in simp_all)
    qed
  qed
qed

text \<open>
  C3 (amended): when \<open>create_member\<close> succeeds on a store that does not fail, the
  stored email is the trimmed, lower-cased form of the email given; \<open>get_member_by_email\<close>
  returns the new member for every argument whose lower-cased form is the stored email;
  and a second \<open>create_member\<close> whose email is the stored email after trimming and
  lower-casing, and whose name and phone are valid, fails with
  \<open>MemberAlreadyExistsError\<close> for \<open>email\<close>.
\<close>

theorem created_member_is_found_by_email:
  "create_member s member_data = (Inr m, s') \<and> faults s = [] \<Longrightarrow>
   m_email m = py_lower (py_strip (c_email member_data))
   \<and> (py_lower email = m_email m \<longrightarrow> fst (get_member_by_email s' email) = Inr (Some m))
   \<and> (py_lower (py_strip (c_email second)) = m_email m
        \<and> validate_name (PyStr (c_name second)) = Inr n2
        \<and> validate_phone (py_optional_str (c_phone second)) = Inr p2
      \<longrightarrow> fst (create_member s' second) = Inl (MemberAlreadyExistsError ''email'' (Some (m_email m))))"
proof -
  assume a: "create_member s member_data = (Inr m, s') \<and> faults s = []"
  then have c: "create_member s member_data = (Inr m, s')" and fl: "faults s = []" by simp_all
  from c fl obtain n e p where
    v: "validate_member_data (PyStr (c_name member_data)) (PyStr (c_email member_data))
          (py_optional_str (c_phone member_data)) = Inr (n, e, p)"
    and none: "find (\<lambda>m. m_email m = e) (txn s) = None"
    and m: "m = \<lparr>m_id = fresh_id (txn s), m_name = n, m_email = e, m_phone = p\<rparr>"
    and st: "db s' = txn s @ [m]" "txn s' = db s'" "faults s' = []"
    by (rule create_member_success_cases)
  from v have ve: "validate_email (PyStr (c_email member_data)) = Inr e"
    by (simp add: validate_member_data_Inr)
  from m have me: "m_email m = e" by simp
  have found: "find (\<lambda>r. m_email r = e) (txn s') = Some m"
    unfolding st(2) st(1)
    by (rule find_append_new) (use find_None_iff' [OF none] me in simp_all)
  have nf: "next_fault s' = None" using st(3) by simp
  have 1: "m_email m = py_lower (py_strip (c_email member_data))"
    using validate_email_normal_form [OF ve] me by simp
  have 2: "py_lower email = m_email m \<longrightarrow> fst (get_member_by_email s' email) = Inr (Some m)"
  proof
    assume l: "py_lower email = m_email m"
    obtain s1 where "get_member_by_email s' email
        = (Inr (find (\<lambda>m. m_email m = py_lower email) (txn s')), s1)"
      by (rule get_member_by_email_ok [OF nf])
    with l me found show "fst (get_member_by_email s' email) = Inr (Some m)" by simp
  qed
  have 3: "py_lower (py_strip (c_email second)) = m_email m
        \<and> validate_name (PyStr (c_name second)) = Inr n2
        \<and> validate_phone (py_optional_str (c_phone second)) = Inr p2
      \<longrightarrow> fst (create_member s' second) = Inl (MemberAlreadyExistsError ''email'' (Some (m_email m)))"
  proof
    assume h: "py_lower (py_strip (c_email second)) = m_email m
        \<and> validate_name (PyStr (c_name second)) = Inr n2
        \<and> validate_phone (py_optional_str (c_phone second)) = Inr p2"
    with me have "validate_email (PyStr (c_email second)) = Inr e"
      using validate_email_same_normal_form [OF ve] by simp
    with h have v2: "validate_member_data (PyStr (c_name second)) (PyStr (c_email second))
          (py_optional_str (c_phone second)) = Inr (n2, e, p2)"
      by (simp add: validate_member_data_Inr)
    have c2: "create_member s' second = (fst (create_member s' second), snd (create_member s' second))"
      by simp
    from create_member_email_taken(1) [OF v2 st(3) found c2] me
    show "fst (create_member s' second) = Inl (MemberAlreadyExistsError ''email'' (Some (m_email m)))"
      by simp
  qed
  from 1 2 3 show ?thesis by (intro conjI)
qed

text \<open>
  The amended C3 at the scenario of the specification: the member created from
  \<open>JOHN@EXAMPLE.COM\<close> is found under another spelling, and a second member with a
  padded spelling of the email is refused.
\<close>

theorem created_member_is_found_by_email_witness:
  "fst (create_member empty_session
          \<lparr>c_name = ''John Doe'', c_email = ''JOHN@EXAMPLE.COM'', c_phone = Some ''+1-234-567-8901''\<rparr>)
     = Inr example_member
   \<and> m_email example_member = ''john@example.com''
   \<and> fst (get_member_by_email
            (snd (create_member empty_session
               \<lparr>c_name = ''John Doe'', c_email = ''JOHN@EXAMPLE.COM'', c_phone = Some ''+1-234-567-8901''\<rparr>))
            ''John@Example.com'') = Inr (Some example_member)
   \<and> fst (create_member
            (snd (create_member empty_session
               \<lparr>c_name = ''John Doe'', c_email = ''JOHN@EXAMPLE.COM'', c_phone = Some ''+1-234-567-8901''\<rparr>))
            \<lparr>c_name = ''Jane Doe'', c_email = '' John@example.com '', c_phone = None\<rparr>)
     = Inl (MemberAlreadyExistsError ''email'' (Some ''john@example.com''))"
proof -
  let ?d = "\<lparr>c_name = ''John Doe'', c_email = ''JOHN@EXAMPLE.COM'', c_phone = Some ''+1-234-567-8901''\<rparr>"
  let ?d2 = "\<lparr>c_name = ''Jane Doe'', c_email = '' John@example.com '', c_phone = None\<rparr>"
  let ?s' = "snd (create_member empty_session ?d)"
  have r: "fst (create_member empty_session ?d) = Inr example_member" by code_simp
  then have c: "create_member empty_session ?d = (Inr example_member, ?s')"
    by (simp add: prod_eq_iff)
  have fl: "faults empty_session = []" by (simp add: empty_session_def)
  have me: "m_email example_member = ''john@example.com''" by (simp add: example_member_def)
  have l: "py_lower ''John@Example.com'' = ''john@example.com''" by code_simp
  have l2: "py_lower (py_strip (c_email ?d2)) = ''john@example.com''" by code_simp
  have n2: "validate_name (PyStr (c_name ?d2)) = Inr ''Jane Doe''" by code_simp
  have p2: "validate_phone (py_optional_str (c_phone ?d2)) = Inr None" by code_simp
  from created_member_is_found_by_email [where s = empty_session and member_data = ?d
      and m = example_member and s' = ?s' and email = "''John@Example.com''" and second = ?d2
      and ?n2.0 = "''Jane Doe''" and ?p2.0 = None] c fl me l l2 n2 p2 r
  show ?thesis by simp
qed

text \<open>
  C3, as stated, fails on the code. A member created with a leading space before the
  email is stored under the trimmed email, which is not the lower-cased input;
  \<open>get_member_by_email\<close> lower-cases its argument but does not trim it, so it does not
  find the member under the email it was created with; and a second \<open>create_member\<close>
  with the same email and a name of one character fails with \<open>InvalidMemberDataError\<close>,
  since the validation comes before the lookup.
\<close>

theorem create_member_padded_email_counterexample:
  "fst (create_member empty_session
          \<lparr>c_name = ''John Doe'', c_email = '' JOHN@EXAMPLE.COM'', c_phone = None\<rparr>)
     = Inr \<lparr>m_id = 1, m_name = ''John Doe'', m_email = ''john@example.com'', m_phone = None\<rparr>
   \<and> py_lower '' JOHN@EXAMPLE.COM'' = '' john@example.com''
   \<and> fst (get_member_by_email
            (snd (create_member empty_session
               \<lparr>c_name = ''John Doe'', c_email = '' JOHN@EXAMPLE.COM'', c_phone = None\<rparr>))
            '' JOHN@EXAMPLE.COM'') = Inr None
   \<and> fst (create_member
            (snd (create_member empty_session
               \<lparr>c_name = ''John Doe'', c_email = '' JOHN@EXAMPLE.COM'', c_phone = None\<rparr>))
            \<lparr>c_name = ''A'', c_email = ''john@example.com'', c_phone = None\<rparr>)
     = Inl (InvalidMemberDataError ''name'' ''A'' ''Name must be at least 2 characters long'')"
  by code_simp


section \<open>The steps of update_member\<close>

lemma find_map_replace:
  assumes "m_id obj = i"
  shows "find (\<lambda>m. m_id m = i) (map (\<lambda>r. if m_id r = i then obj else r) rs)
         = (case find (\<lambda>m. m_id m = i) rs of None \<Rightarrow> None | Some old \<Rightarrow> Some obj)"
  using assms by (induction rs) auto

lemma find_Some_id: "find (\<lambda>m. m_id m = i) rs = Some old \<Longrightarrow> m_id old = i"
  by (induction rs) (auto split: if_splits)

lemma m_id_apply_update_data [simp]: "m_id (apply_update_data ud ex) = m_id ex"
  by (simp add: apply_update_data_def)

lemma validate_name_Dummy: "validate_name (PyStr ''Dummy'') = Inr ''Dummy''"
  by code_simp

lemma validate_email_dummy: "validate_email (PyStr ''dummy@example.com'') = Inr ''dummy@example.com''"
  by code_simp

lemma validate_phone_None [simp]: "validate_phone PyNone = Inr None"
  by (simp add: validate_phone_def)

lemma validate_phone_blank:
  "validate_phone (PyStr w) = Inr None \<longleftrightarrow> py_strip w = []"
  by (auto simp: validate_phone_def Let_def)

lemma update_member_name_eq:
  "update_member_name d =
     (case u_name d of None \<Rightarrow> Inr None
      | Some n \<Rightarrow> (case validate_name (PyStr n) of Inl e \<Rightarrow> Inl e | Inr vn \<Rightarrow> Inr (Some vn)))"
  by (auto simp: update_member_name_def validate_member_data_def validate_email_dummy
      split: option.splits sum.splits)

lemma update_member_email_eq:
  "update_member_email s i d =
     (case u_email d of None \<Rightarrow> (Inr None, s)
      | Some e \<Rightarrow>
          (case validate_email (PyStr e) of
             Inl x \<Rightarrow> (Inl x, s)
           | Inr ve \<Rightarrow>
               (case get_member_by_email s ve of
                  (Inl x, s1) \<Rightarrow> (Inl x, s1)
                | (Inr None, s1) \<Rightarrow> (Inr (Some ve), s1)
                | (Inr (Some other), s1) \<Rightarrow>
                    if m_id other \<noteq> i
                    then (Inl (MemberAlreadyExistsError ''email'' (Some ve)), s1)
                    else (Inr (Some ve), s1))))"
  by (auto simp: update_member_email_def validate_member_data_def validate_name_Dummy
      split: option.splits sum.splits prod.splits)

lemma update_member_phone_eq:
  "update_member_phone s i d =
     (case u_phone d of None \<Rightarrow> (Inr None, s)
      | Some p \<Rightarrow>
          (case validate_phone (PyStr p) of
             Inl x \<Rightarrow> (Inl x, s)
           | Inr None \<Rightarrow> (Inr (Some None), s)
           | Inr (Some vp) \<Rightarrow>
               (case get_member_by_phone s vp of
                  (Inl x, s1) \<Rightarrow> (Inl x, s1)
                | (Inr None, s1) \<Rightarrow> (Inr (Some (Some vp)), s1)
                | (Inr (Some other), s1) \<Rightarrow>
                    if m_id other \<noteq> i
                    then (Inl (MemberAlreadyExistsError ''phone'' (Some vp)), s1)
                    else (Inr (Some (Some vp)), s1))))"
  by (auto simp: update_member_phone_def validate_member_data_def validate_name_Dummy
      validate_email_dummy split: option.splits sum.splits prod.splits
      dest: validate_phone_present)

lemma update_member_name_supplied:
  "update_member_name d = Inr nm \<Longrightarrow> nm = ud_name (supplied_update_data d)"
  by (auto simp: update_member_name_eq supplied_update_data_def split: option.splits sum.splits)

lemma update_member_email_supplied:
  "update_member_email s i d = (Inr em, s') \<Longrightarrow> em = ud_email (supplied_update_data d)"
  by (auto simp: update_member_email_eq supplied_update_data_def
      split: option.splits sum.splits prod.splits if_splits)

lemma update_member_phone_supplied:
  "update_member_phone s i d = (Inr ph, s') \<Longrightarrow> ph = ud_phone (supplied_update_data d)"
  by (auto simp: update_member_phone_eq supplied_update_data_def
      split: option.splits sum.splits prod.splits if_splits)

lemma update_member_email_faults:
  assumes "update_member_email s i d = (r, s')" "faults s = []"
  shows "faults s' = []"
proof (cases "u_email d")
  case None
  with assms show ?thesis by (simp add: update_member_email_eq)
next
  case (Some e)
  show ?thesis
  proof (cases "validate_email (PyStr e)")
    case (Inl x)
    with assms Some show ?thesis by (simp add: update_member_email_eq)
  next
    case (Inr ve)
    obtain r1 s1 where g: "get_member_by_email s ve = (r1, s1)" by (cases "get_member_by_email s ve")
    from assms(1) Some Inr g have "s' = s1"
      by (auto simp: update_member_email_eq split: sum.splits option.splits if_splits)
    with get_member_by_email_state(4) [OF g] assms(2) show ?thesis by simp
  qed
qed

lemma update_member_phone_faults:
  assumes "update_member_phone s i d = (r, s')" "faults s = []"
  shows "faults s' = []"
proof (cases "u_phone d")
  case None
  with assms show ?thesis by (simp add: update_member_phone_eq)
next
  case (Some p)
  show ?thesis
  proof (cases "validate_phone (PyStr p)")
    case (Inl x)
    with assms Some show ?thesis by (simp add: update_member_phone_eq)
  next
    case (Inr vp)
    show ?thesis
    proof (cases vp)
      case None
      with assms Some Inr show ?thesis by (simp add: update_member_phone_eq)
    next
      case vp: (Some q)
      obtain r1 s1 where g: "get_member_by_phone s q = (r1, s1)" by (cases "get_member_by_phone s q")
      from assms(1) Some Inr vp g have "s' = s1"
        by (auto simp: update_member_phone_eq split: sum.splits option.splits if_splits)
      with get_member_by_phone_state(4) [OF g] assms(2) show ?thesis by simp
    qed
  qed
qed

lemma update_member_except_state:
  assumes "update_member_except l e s1 = (r, s')"
  shows "\<exists>e'. r = Inl e'" "db s' = db s1" "txn s' = db s1 \<or> txn s' = txn s1"
proof -
  from assms show "\<exists>e'. r = Inl e'" by (cases rule: update_member_except_cases) simp_all
  from assms show "db s' = db s1" by (cases rule: update_member_except_cases) simp_all
  from assms show "txn s' = db s1 \<or> txn s' = txn s1"
    by (cases rule: update_member_except_cases) simp_all
qed

lemma update_member_write_outcome:
  assumes "update_member_write ud ex s = (r, s')"
    and "find (\<lambda>m. m_id m = m_id ex) (txn s) = Some ex"
  shows "txn s' = db s \<or> txn s' = map (\<lambda>r. if m_id r = m_id ex then apply_update_data ud ex else r) (txn s)"
    and "db s' = db s \<or> db s' = map (\<lambda>r. if m_id r = m_id ex then apply_update_data ud ex else r) (txn s)"
    and "\<And>m. r = Inr m \<Longrightarrow> m = apply_update_data ud ex
            \<and> db s' = map (\<lambda>r. if m_id r = m_id ex then apply_update_data ud ex else r) (txn s)
            \<and> txn s' = map (\<lambda>r. if m_id r = m_id ex then apply_update_data ud ex else r) (txn s)"
    and "faults s = [] \<Longrightarrow> r = Inr (apply_update_data ud ex) \<and> faults s' = []"
proof -
  let ?obj = "apply_update_data ud ex"
  let ?new = "map (\<lambda>r. if m_id r = m_id ex then ?obj else r) (txn s)"
  let ?s1 = "session_add_dirty ?obj s"
  have t1: "txn ?s1 = ?new" by simp
  have found: "find (\<lambda>m. m_id m = m_id ?obj) ?new = Some ?obj"
    using find_map_replace [of ?obj "m_id ex" "txn s"] assms(2) by simp
  obtain r2 s2 where com: "session_commit ?s1 = (r2, s2)" by (cases "session_commit ?s1")
  note c = session_commit_state [OF com]
  have "(txn s' = db s \<or> txn s' = ?new)
    \<and> (db s' = db s \<or> db s' = ?new)
    \<and> (\<forall>m. r = Inr m \<longrightarrow> m = ?obj \<and> db s' = ?new \<and> txn s' = ?new)
    \<and> (faults s = [] \<longrightarrow> r = Inr ?obj \<and> faults s' = [])"
  proof (cases r2)
    case (Inl e2)
    with assms(1) com have w: "update_member_except (Some ud) e2 s2 = (r, s')"
      by (simp add: update_member_write_def Let_def)
    note x = update_member_except_state [OF w]
    from x(1) obtain e' where r: "r = Inl e'" by blast
    from session_commit_result [OF com] Inl have nz: "faults s \<noteq> []"
      by (auto simp: next_fault_def split: list.splits option.splits)
    have "db s2 = db s" "txn s2 = ?new" using c Inl by simp_all
    with x(2,3) r nz show ?thesis by auto
  next
    case (Inr u)
    obtain r3 s3 where ref: "session_refresh ?obj s2 = (r3, s3)" by (cases "session_refresh ?obj s2")
    note rf = session_refresh_state [OF ref]
    have db3: "db s3 = ?new" "txn s3 = ?new" using rf c Inr by simp_all
    show ?thesis
    proof (cases r3)
      case (Inl e3)
      with assms(1) com Inr ref have w: "update_member_except (Some ud) e3 s3 = (r, s')"
        by (simp add: update_member_write_def Let_def)
      note x = update_member_except_state [OF w]
      from x(1) obtain e' where r: "r = Inl e'" by blast
      have "txn s2 = ?new" using c by simp
      with session_refresh_result [OF ref] Inl found have "next_fault s2 \<noteq> None"
        by (auto split: option.splits)
      then have nz: "faults s \<noteq> []" using c by (auto simp: next_fault_def split: list.splits)
      from x(2,3) r nz db3 show ?thesis by auto
    next
      case r3: (Inr m3)
      have "txn s2 = ?new" using c by simp
      with session_refresh_result [OF ref] r3 found have m3: "m3 = ?obj"
        by (auto split: option.splits)
      from assms(1) com Inr ref r3 have "r = Inr m3" "s' = s3"
        by (simp_all add: update_member_write_def Let_def)
      with m3 db3 rf c show ?thesis by simp
    qed
  qed
  then have all: "txn s' = db s \<or> txn s' = ?new" "db s' = db s \<or> db s' = ?new"
    "\<forall>m. r = Inr m \<longrightarrow> m = ?obj \<and> db s' = ?new \<and> txn s' = ?new"
    "faults s = [] \<longrightarrow> r = Inr ?obj \<and> faults s' = []"
    by blast+
  show "txn s' = db s \<or> txn s' = ?new" by (rule all(1))
  show "db s' = db s \<or> db s' = ?new" by (rule all(2))
  show "\<And>m. r = Inr m \<Longrightarrow> m = ?obj \<and> db s' = ?new \<and> txn s' = ?new" using all(3) by blast
  show "faults s = [] \<Longrightarrow> r = Inr ?obj \<and> faults s' = []" using all(4) by blast
qed

lemma update_data_collected:
  assumes "nm = ud_name X" "em = ud_email X" "ph = ud_phone X"
  shows "empty_update_data\<lparr>ud_name := nm, ud_email := em, ud_phone := ph\<rparr> = X"
  using assms by (cases X) (simp add: empty_update_data_def)

lemma update_member_except_before_commit:
  assumes "update_member_except l e s1 = (r, s')" "db s1 = db s" "txn s1 = txn s"
  obtains e' where "r = Inl e'" "db s' = db s" "txn s' = db s \<or> txn s' = txn s"
proof -
  note x = update_member_except_state [OF assms(1)]
  from x(1) obtain e' where "r = Inl e'" by blast
  moreover from x(2) assms(2) have "db s' = db s" by simp
  moreover from x(3) assms(2,3) have "txn s' = db s \<or> txn s' = txn s" by simp
  ultimately show thesis by (rule that)
qed

lemma update_member_inv:
  assumes "update_member s i d = (r, s')"
  obtains (failed) e where "r = Inl e" "db s' = db s" "txn s' = db s \<or> txn s' = txn s"
  | (written) ex s3 where "find (\<lambda>m. m_id m = i) (txn s) = Some ex" "db s3 = db s" "txn s3 = txn s"
      "faults s = [] \<longrightarrow> faults s3 = []"
      "update_member_write (supplied_update_data d) ex s3 = (r, s')"
proof -
  obtain r1 s1 where g: "get_member_by_id s i = (r1, s1)" by (cases "get_member_by_id s i")
  note st1 = get_member_by_id_state [OF g]
  show thesis
  proof (cases r1)
    case (Inl e1)
    with assms g have "update_member_except None e1 s1 = (r, s')"
      by (simp add: update_member_def)
    then show thesis by (rule update_member_except_before_commit [OF _ st1(1) st1(2)]) (rule failed)
  next
    case r1: (Inr found)
    show thesis
    proof (cases found)
      case None
      with assms g r1
      have "update_member_except None (MemberNotFoundError ''id'' (py_str_int i)) s1 = (r, s')"
        by (simp add: update_member_def)
      then show thesis by (rule update_member_except_before_commit [OF _ st1(1) st1(2)]) (rule failed)
    next
      case (Some ex)
      from get_member_by_id_result [OF g] r1 Some have ex: "find (\<lambda>m. m_id m = i) (txn s) = Some ex"
        by (auto split: option.splits)
      show thesis
      proof (cases "update_member_name d")
        case (Inl e2)
        with assms g r1 Some have "update_member_except (Some empty_update_data) e2 s1 = (r, s')"
          by (simp add: update_member_def)
        then show thesis by (rule update_member_except_before_commit [OF _ st1(1) st1(2)]) (rule failed)
      next
        case nm: (Inr nm)
        obtain r2 s2 where em: "update_member_email s1 i d = (r2, s2)"
          by (cases "update_member_email s1 i d")
        note st2 = update_member_email_state(1,2) [OF em]
        show thesis
        proof (cases r2)
          case (Inl e3)
          with assms g r1 Some nm em
          have "update_member_except (Some (empty_update_data\<lparr>ud_name := nm\<rparr>)) e3 s2 = (r, s')"
            by (simp add: update_member_def Let_def)
          moreover have "db s2 = db s" "txn s2 = txn s" using st1 st2 by simp_all
          ultimately show thesis by (rule update_member_except_before_commit) (rule failed)
        next
          case r2: (Inr emv)
          obtain r3 s3 where ph: "update_member_phone s2 i d = (r3, s3)"
            by (cases "update_member_phone s2 i d")
          note st3 = update_member_phone_state(1,2) [OF ph]
          show thesis
          proof (cases r3)
            case (Inl e4)
            with assms g r1 Some nm em r2 ph
            have "update_member_except (Some (empty_update_data\<lparr>ud_name := nm, ud_email := emv\<rparr>)) e4 s3
                  = (r, s')"
              by (simp add: update_member_def Let_def)
            moreover have "db s3 = db s" "txn s3 = txn s" using st1 st2 st3 by simp_all
            ultimately show thesis by (rule update_member_except_before_commit) (rule failed)
          next
            case r3: (Inr phv)
            have ud: "empty_update_data\<lparr>ud_name := nm, ud_email := emv, ud_phone := phv\<rparr>
                      = supplied_update_data d"
              by (rule update_data_collected)
                 (use update_member_name_supplied [OF nm] update_member_email_supplied [OF em [unfolded r2]]
                    update_member_phone_supplied [OF ph [unfolded r3]] in simp_all)
            from assms g r1 Some nm em r2 ph r3
            have "update_member_write (empty_update_data\<lparr>ud_name := nm, ud_email := emv, ud_phone := phv\<rparr>)
                    ex s3 = (r, s')"
              by (simp add: update_member_def Let_def)
            then have w: "update_member_write (supplied_update_data d) ex s3 = (r, s')"
              by (simp only: ud)
            have fl: "faults s = [] \<longrightarrow> faults s3 = []"
            proof
              assume "faults s = []"
              then have "faults s1 = []" using st1 by simp
              then have "faults s2 = []" by (rule update_member_email_faults [OF em])
              then show "faults s3 = []" by (rule update_member_phone_faults [OF ph])
            qed
            show thesis
              by (rule written [OF ex _ _ fl w]) (use st1 st2 st3 in simp_all)
          qed
        qed
      qed
    qed
  qed
qed

lemma update_member_outcome:
  assumes "update_member s i d = (r, s')"
  shows "txn s' = db s \<or> txn s' = txn s \<or> (\<exists>ex. find (\<lambda>m. m_id m = i) (txn s) = Some ex
           \<and> txn s' = map (\<lambda>r. if m_id r = i then apply_update_data (supplied_update_data d) ex else r) (txn s))"
    and "db s' = db s \<or> (\<exists>ex. find (\<lambda>m. m_id m = i) (txn s) = Some ex
           \<and> db s' = map (\<lambda>r. if m_id r = i then apply_update_data (supplied_update_data d) ex else r) (txn s))"
    and "\<And>m. r = Inr m \<Longrightarrow> \<exists>ex. find (\<lambda>m. m_id m = i) (txn s) = Some ex
           \<and> m = apply_update_data (supplied_update_data d) ex
           \<and> db s' = map (\<lambda>r. if m_id r = i then apply_update_data (supplied_update_data d) ex else r) (txn s)
           \<and> txn s' = map (\<lambda>r. if m_id r = i then apply_update_data (supplied_update_data d) ex else r) (txn s)"
proof -
  have "(txn s' = db s \<or> txn s' = txn s \<or> (\<exists>ex. find (\<lambda>m. m_id m = i) (txn s) = Some ex
           \<and> txn s' = map (\<lambda>r. if m_id r = i then apply_update_data (supplied_update_data d) ex else r) (txn s)))
    \<and> (db s' = db s \<or> (\<exists>ex. find (\<lambda>m. m_id m = i) (txn s) = Some ex
           \<and> db s' = map (\<lambda>r. if m_id r = i then apply_update_data (supplied_update_data d) ex else r) (txn s)))
    \<and> (\<forall>m. r = Inr m \<longrightarrow> (\<exists>ex. find (\<lambda>m. m_id m = i) (txn s) = Some ex
           \<and> m = apply_update_data (supplied_update_data d) ex
           \<and> db s' = map (\<lambda>r. if m_id r = i then apply_update_data (supplied_update_data d) ex else r) (txn s)
           \<and> txn s' = map (\<lambda>r. if m_id r = i then apply_update_data (supplied_update_data d) ex else r) (txn s)))"
    using assms
  proof (cases rule: update_member_inv)
    case (failed e)
    then show ?thesis by auto
  next
    case (written ex s3)
    from find_Some_id [OF written(1)] have id: "m_id ex = i" .
    have f3: "find (\<lambda>m. m_id m = m_id ex) (txn s3) = Some ex" using written(1,3) id by simp
    note o = update_member_write_outcome [OF written(5) f3]
    from o(1) o(2) o(3) written(1,2,3) id show ?thesis by auto
  qed
  then show "txn s' = db s \<or> txn s' = txn s \<or> (\<exists>ex. find (\<lambda>m. m_id m = i) (txn s) = Some ex
           \<and> txn s' = map (\<lambda>r. if m_id r = i then apply_update_data (supplied_update_data d) ex else r) (txn s))"
    and "db s' = db s \<or> (\<exists>ex. find (\<lambda>m. m_id m = i) (txn s) = Some ex
           \<and> db s' = map (\<lambda>r. if m_id r = i then apply_update_data (supplied_update_data d) ex else r) (txn s))"
    and "\<And>m. r = Inr m \<Longrightarrow> \<exists>ex. find (\<lambda>m. m_id m = i) (txn s) = Some ex
           \<and> m = apply_update_data (supplied_update_data d) ex
           \<and> db s' = map (\<lambda>r. if m_id r = i then apply_update_data (supplied_update_data d) ex else r) (txn s)
           \<and> txn s' = map (\<lambda>r. if m_id r = i then apply_update_data (supplied_update_data d) ex else r) (txn s)"
    by blast+
qed

lemma find_Some_set: "find P xs = Some x \<Longrightarrow> x \<in> set xs \<and> P x"
  by (induction xs) (auto split: if_splits)

lemma update_member_email_ok:
  assumes "faults s = []"
    and "\<forall>e. u_email d = Some e \<longrightarrow>
           (\<exists>ve. validate_email (PyStr e) = Inr ve \<and> (\<forall>x\<in>set (txn s). m_email x = ve \<longrightarrow> m_id x = i))"
  obtains s1 where "update_member_email s i d = (Inr (ud_email (supplied_update_data d)), s1)"
    "db s1 = db s" "txn s1 = txn s" "faults s1 = []"
proof (cases "u_email d")
  case None
  then have "update_member_email s i d = (Inr (ud_email (supplied_update_data d)), s)"
    by (simp add: update_member_email_eq supplied_update_data_def)
  then show thesis using that assms(1) by simp
next
  case (Some e)
  with assms(2) obtain ve where ve: "validate_email (PyStr e) = Inr ve"
    and own: "\<forall>x\<in>set (txn s). m_email x = ve \<longrightarrow> m_id x = i" by auto
  have nf: "next_fault s = None" using assms(1) by simp
  from validate_email_lower [OF ve] have low: "py_lower ve = ve" by simp
  obtain s1 where g: "get_member_by_email s ve = (Inr (find (\<lambda>m. m_email m = py_lower ve) (txn s)), s1)"
    and st: "db s1 = db s" "txn s1 = txn s" "faults s1 = tl (faults s)"
    by (rule get_member_by_email_ok [OF nf])
  have "update_member_email s i d = (Inr (Some ve), s1)"
  proof (cases "find (\<lambda>m. m_email m = ve) (txn s)")
    case None
    with Some ve g low show ?thesis by (simp add: update_member_email_eq)
  next
    case other: (Some other)
    from find_Some_set [OF other] own have "m_id other = i" by auto
    with Some ve g low other show ?thesis by (simp add: update_member_email_eq)
  qed
  moreover have "ud_email (supplied_update_data d) = Some ve"
    using Some ve by (simp add: supplied_update_data_def)
  ultimately show thesis using that st assms(1) by simp
qed

lemma update_member_phone_ok:
  assumes "faults s = []"
    and "\<forall>p. u_phone d = Some p \<longrightarrow>
           (\<exists>vp. validate_phone (PyStr p) = Inr vp
                \<and> (\<forall>x\<in>set (txn s). vp \<noteq> None \<and> m_phone x = vp \<longrightarrow> m_id x = i))"
  obtains s1 where "update_member_phone s i d = (Inr (ud_phone (supplied_update_data d)), s1)"
    "db s1 = db s" "txn s1 = txn s" "faults s1 = []"
proof (cases "u_phone d")
  case None
  then have "update_member_phone s i d = (Inr (ud_phone (supplied_update_data d)), s)"
    by (simp add: update_member_phone_eq supplied_update_data_def)
  then show thesis using that assms(1) by simp
next
  case (Some p)
  with assms(2) obtain vp where vp: "validate_phone (PyStr p) = Inr vp"
    and own: "\<forall>x\<in>set (txn s). vp \<noteq> None \<and> m_phone x = vp \<longrightarrow> m_id x = i" by auto
  have sup: "ud_phone (supplied_update_data d) = Some vp"
    using Some vp by (simp add: supplied_update_data_def)
  show thesis
  proof (cases vp)
    case None
    with Some vp have "update_member_phone s i d = (Inr (Some None), s)"
      by (simp add: update_member_phone_eq)
    then show thesis using that sup None assms(1) by simp
  next
    case q: (Some q)
    have nf: "next_fault s = None" using assms(1) by simp
    obtain s1 where g: "get_member_by_phone s q = (Inr (find (\<lambda>m. m_phone m = Some q) (txn s)), s1)"
      and st: "db s1 = db s" "txn s1 = txn s" "faults s1 = tl (faults s)"
      by (rule get_member_by_phone_ok [OF nf])
    have "update_member_phone s i d = (Inr (Some (Some q)), s1)"
    proof (cases "find (\<lambda>m. m_phone m = Some q) (txn s)")
      case None
      with Some vp q g show ?thesis by (simp add: update_member_phone_eq)
    next
      case other: (Some other)
      from find_Some_set [OF other] own q have "m_id other = i" by auto
      with Some vp q g other show ?thesis by (simp add: update_member_phone_eq)
    qed
    then show thesis using that st sup q assms(1) by simp
  qed
qed

lemma update_member_name_ok:
  assumes "\<forall>n. u_name d = Some n \<longrightarrow> (\<exists>vn. validate_name (PyStr n) = Inr vn)"
  shows "update_member_name d = Inr (ud_name (supplied_update_data d))"
  using assms by (auto simp: update_member_name_eq supplied_update_data_def split: option.splits)

lemma update_member_succeeds:
  assumes "faults s = []" and "find (\<lambda>m. m_id m = i) (txn s) = Some old"
    and "\<forall>n. u_name d = Some n \<longrightarrow> (\<exists>vn. validate_name (PyStr n) = Inr vn)"
    and "\<forall>e. u_email d = Some e \<longrightarrow>
           (\<exists>ve. validate_email (PyStr e) = Inr ve \<and> (\<forall>x\<in>set (txn s). m_email x = ve \<longrightarrow> m_id x = i))"
    and "\<forall>p. u_phone d = Some p \<longrightarrow>
           (\<exists>vp. validate_phone (PyStr p) = Inr vp
                \<and> (\<forall>x\<in>set (txn s). vp \<noteq> None \<and> m_phone x = vp \<longrightarrow> m_id x = i))"
    and "update_member s i d = (r, s')"
  shows "r = Inr (apply_update_data (supplied_update_data d) old)"
    and "db s' = map (\<lambda>r. if m_id r = i then apply_update_data (supplied_update_data d) old else r) (txn s)"
    and "txn s' = db s'" and "faults s' = []"
proof -
  let ?ud = "supplied_update_data d"
  have nf: "next_fault s = None" using assms(1) by simp
  obtain s1 where g: "get_member_by_id s i = (Inr (find (\<lambda>m. m_id m = i) (txn s)), s1)"
    and st1: "db s1 = db s" "txn s1 = txn s" "faults s1 = tl (faults s)"
    by (rule get_member_by_id_ok [OF nf])
  have f1: "faults s1 = []" using st1 assms(1) by simp
  note nm = update_member_name_ok [OF assms(3)]
  obtain s2 where em: "update_member_email s1 i d = (Inr (ud_email ?ud), s2)"
    and st2: "db s2 = db s1" "txn s2 = txn s1" "faults s2 = []"
    by (rule update_member_email_ok [OF f1, of d i]) (use assms(4) st1 in simp_all)
  obtain s3 where ph: "update_member_phone s2 i d = (Inr (ud_phone ?ud), s3)"
    and st3: "db s3 = db s2" "txn s3 = txn s2" "faults s3 = []"
    by (rule update_member_phone_ok [OF st2(3), of d i]) (use assms(5) st1 st2 in simp_all)
  have ud: "empty_update_data\<lparr>ud_name := ud_name ?ud, ud_email := ud_email ?ud, ud_phone := ud_phone ?ud\<rparr> = ?ud"
    by (rule update_data_collected) simp_all
  have "update_member s i d
        = update_member_write (empty_update_data\<lparr>ud_name := ud_name ?ud, ud_email := ud_email ?ud,
            ud_phone := ud_phone ?ud\<rparr>) old s3"
    using g assms(2) nm em ph by (simp add: update_member_def Let_def)
  with assms(6) have w: "update_member_write ?ud old s3 = (r, s')" by (simp only: ud)
  from find_Some_id [OF assms(2)] have id: "m_id old = i" .
  have f3: "find (\<lambda>m. m_id m = m_id old) (txn s3) = Some old"
    using assms(2) id st1 st2 st3 by simp
  note o = update_member_write_outcome [OF w f3]
  from o(4) [OF st3(3)] show "r = Inr (apply_update_data ?ud old)" "faults s' = []" by simp_all
  with o(3) [of "apply_update_data ?ud old"] id st1 st2 st3
  show "db s' = map (\<lambda>r. if m_id r = i then apply_update_data ?ud old else r) (txn s)" by simp
  from o(3) [of "apply_update_data ?ud old"] \<open>r = Inr (apply_update_data ?ud old)\<close>
  show "txn s' = db s'" by simp
qed


section \<open>Partial updates\<close>

lemma supplied_update_data_absent [simp]:
  "u_name d = None \<Longrightarrow> ud_name (supplied_update_data d) = None"
  "u_email d = None \<Longrightarrow> ud_email (supplied_update_data d) = None"
  "u_phone d = None \<Longrightarrow> ud_phone (supplied_update_data d) = None"
  by (simp_all add: supplied_update_data_def)

lemma apply_update_data_fields:
  "m_name (apply_update_data ud ex) = (case ud_name ud of None \<Rightarrow> m_name ex | Some n \<Rightarrow> n)"
  "m_email (apply_update_data ud ex) = (case ud_email ud of None \<Rightarrow> m_email ex | Some e \<Rightarrow> e)"
  "m_phone (apply_update_data ud ex) = (case ud_phone ud of None \<Rightarrow> m_phone ex | Some p \<Rightarrow> p)"
  by (simp_all add: apply_update_data_def)

text \<open>
  C4: let a session without uncommitted changes hold a member under \<open>member_id\<close>.
  After any call of \<open>update_member\<close> for that member, whether it succeeds or fails and
  whatever the store does, the session still holds a member under \<open>member_id\<close> whose
  name, email and phone are the earlier ones wherever the payload did not supply the
  field; \<open>get_member_by_id\<close> returns that member when its read succeeds, and it is the
  member that a successful update returns. In particular an update that supplies only a
  name leaves email and phone as they were.
\<close>

theorem update_member_keeps_unsupplied_fields:
  "update_member s member_id member_data = (r, s') \<and> txn s = db s
     \<and> find (\<lambda>m. m_id m = member_id) (txn s) = Some old \<Longrightarrow>
   (\<exists>new. find (\<lambda>m. m_id m = member_id) (txn s') = Some new
      \<and> (u_name member_data = None \<longrightarrow> m_name new = m_name old)
      \<and> (u_email member_data = None \<longrightarrow> m_email new = m_email old)
      \<and> (u_phone member_data = None \<longrightarrow> m_phone new = m_phone old)
      \<and> (next_fault s' = None \<longrightarrow> fst (get_member_by_id s' member_id) = Inr (Some new))
      \<and> (\<forall>m. r = Inr m \<longrightarrow> m = new))"
proof -
  assume a: "update_member s member_id member_data = (r, s') \<and> txn s = db s
     \<and> find (\<lambda>m. m_id m = member_id) (txn s) = Some old"
  then have u: "update_member s member_id member_data = (r, s')" and clean: "txn s = db s"
    and old: "find (\<lambda>m. m_id m = member_id) (txn s) = Some old" by blast+
  let ?obj = "apply_update_data (supplied_update_data member_data) old"
  let ?upd = "map (\<lambda>r. if m_id r = member_id then ?obj else r) (txn s)"
  note o = update_member_outcome [OF u]
  from find_Some_id [OF old] have id: "m_id old = member_id" .
  have fu: "find (\<lambda>m. m_id m = member_id) ?upd = Some ?obj"
    using find_map_replace [of ?obj member_id "txn s"] old id by simp
  have reads: "next_fault s' = None \<longrightarrow>
      fst (get_member_by_id s' member_id) = Inr (find (\<lambda>m. m_id m = member_id) (txn s'))"
  proof
    assume nf: "next_fault s' = None"
    obtain s1 where "get_member_by_id s' member_id = (Inr (find (\<lambda>m. m_id m = member_id) (txn s')), s1)"
      by (rule get_member_by_id_ok [OF nf])
    then show "fst (get_member_by_id s' member_id) = Inr (find (\<lambda>m. m_id m = member_id) (txn s'))"
      by simp
  qed
  have succ: "\<forall>m. r = Inr m \<longrightarrow> m = ?obj \<and> txn s' = ?upd"
    using o(3) old by fastforce
  from o(1) old clean have "txn s' = txn s \<or> txn s' = ?upd" by auto
  then show ?thesis
  proof
    assume t: "txn s' = txn s"
    have "\<forall>m. r = Inr m \<longrightarrow> m = old"
    proof (intro allI impI)
      fix m assume "r = Inr m"
      with succ have "m = ?obj" "txn s' = ?upd" by simp_all
      with t fu old show "m = old" by simp
    qed
    with t old reads show ?thesis by simp
  next
    assume t: "txn s' = ?upd"
    have "find (\<lambda>m. m_id m = member_id) (txn s') = Some ?obj" using t fu by simp
    moreover have "u_name member_data = None \<longrightarrow> m_name ?obj = m_name old"
      "u_email member_data = None \<longrightarrow> m_email ?obj = m_email old"
      "u_phone member_data = None \<longrightarrow> m_phone ?obj = m_phone old"
      by (simp_all add: apply_update_data_fields)
    moreover have "\<forall>m. r = Inr m \<longrightarrow> m = ?obj" using succ by simp
    ultimately show ?thesis using reads by simp
  qed
qed

text \<open>C4 at an update of the example member that supplies a name only.\<close>

theorem update_member_keeps_unsupplied_fields_witness:
  "fst (update_member example_session 1 \<lparr>u_name = Some ''John Smith'', u_email = None, u_phone = None\<rparr>)
     = Inr (example_member\<lparr>m_name := ''John Smith''\<rparr>)
   \<and> fst (get_member_by_id
            (snd (update_member example_session 1
                   \<lparr>u_name = Some ''John Smith'', u_email = None, u_phone = None\<rparr>)) 1)
     = Inr (Some (example_member\<lparr>m_name := ''John Smith''\<rparr>))
   \<and> m_email (example_member\<lparr>m_name := ''John Smith''\<rparr>) = ''john@example.com''
   \<and> m_phone (example_member\<lparr>m_name := ''John Smith''\<rparr>) = Some ''+1-234-567-8901''"
proof -
  let ?d = "\<lparr>u_name = Some ''John Smith'', u_email = None, u_phone = None\<rparr>"
  let ?r = "fst (update_member example_session 1 ?d)"
  let ?s' = "snd (update_member example_session 1 ?d)"
  have r: "?r = Inr (example_member\<lparr>m_name := ''John Smith''\<rparr>)" by code_simp
  have nf: "next_fault ?s' = None" by code_simp
  have h: "update_member example_session 1 ?d = (?r, ?s') \<and> txn example_session = db example_session
     \<and> find (\<lambda>m. m_id m = 1) (txn example_session) = Some example_member"
    by (simp add: example_session_def example_member_def)
  from update_member_keeps_unsupplied_fields [OF h] r nf
  have "fst (get_member_by_id ?s' 1) = Inr (Some (example_member\<lparr>m_name := ''John Smith''\<rparr>))"
    by auto
  with r show ?thesis by (simp add: example_member_def)
qed

text \<open>
  C6: let the store not fail, let the member exist and let every supplied field pass its
  validation. When every row that holds the validated email, and every row that holds
  the validated phone, is the row of \<open>member_id\<close> itself, \<open>update_member\<close> does not
  fail: it returns the member, now stored with the validated email and phone.
\<close>

theorem update_member_excludes_own_row:
  "update_member s member_id member_data = (r, s')
   \<and> faults s = [] \<and> find (\<lambda>m. m_id m = member_id) (txn s) = Some old
   \<and> (\<forall>n. u_name member_data = Some n \<longrightarrow> (\<exists>vn. validate_name (PyStr n) = Inr vn))
   \<and> (\<forall>e. u_email member_data = Some e \<longrightarrow>
         (\<exists>ve. validate_email (PyStr e) = Inr ve
              \<and> (\<forall>x\<in>set (txn s). m_email x = ve \<longrightarrow> m_id x = member_id)))
   \<and> (\<forall>p. u_phone member_data = Some p \<longrightarrow>
         (\<exists>vp. validate_phone (PyStr p) = Inr vp
              \<and> (\<forall>x\<in>set (txn s). vp \<noteq> None \<and> m_phone x = vp \<longrightarrow> m_id x = member_id)))
   \<Longrightarrow>
   (\<exists>m. r = Inr m \<and> find (\<lambda>m. m_id m = member_id) (db s') = Some m
      \<and> (\<forall>e ve. u_email member_data = Some e \<and> validate_email (PyStr e) = Inr ve \<longrightarrow> m_email m = ve)
      \<and> (\<forall>p vp. u_phone member_data = Some p \<and> validate_phone (PyStr p) = Inr vp \<longrightarrow> m_phone m = vp))"
proof -
  assume a: "update_member s member_id member_data = (r, s')
   \<and> faults s = [] \<and> find (\<lambda>m. m_id m = member_id) (txn s) = Some old
   \<and> (\<forall>n. u_name member_data = Some n \<longrightarrow> (\<exists>vn. validate_name (PyStr n) = Inr vn))
   \<and> (\<forall>e. u_email member_data = Some e \<longrightarrow>
         (\<exists>ve. validate_email (PyStr e) = Inr ve
              \<and> (\<forall>x\<in>set (txn s). m_email x = ve \<longrightarrow> m_id x = member_id)))
   \<and> (\<forall>p. u_phone member_data = Some p \<longrightarrow>
         (\<exists>vp. validate_phone (PyStr p) = Inr vp
              \<and> (\<forall>x\<in>set (txn s). vp \<noteq> None \<and> m_phone x = vp \<longrightarrow> m_id x = member_id)))"
  then have u: "update_member s member_id member_data = (r, s')" and fl: "faults s = []"
    and old: "find (\<lambda>m. m_id m = member_id) (txn s) = Some old"
    and hn: "\<forall>n. u_name member_data = Some n \<longrightarrow> (\<exists>vn. validate_name (PyStr n) = Inr vn)"
    and he: "\<forall>e. u_email member_data = Some e \<longrightarrow>
         (\<exists>ve. validate_email (PyStr e) = Inr ve
              \<and> (\<forall>x\<in>set (txn s). m_email x = ve \<longrightarrow> m_id x = member_id))"
    and hp: "\<forall>p. u_phone member_data = Some p \<longrightarrow>
         (\<exists>vp. validate_phone (PyStr p) = Inr vp
              \<and> (\<forall>x\<in>set (txn s). vp \<noteq> None \<and> m_phone x = vp \<longrightarrow> m_id x = member_id))"
    by blast+
  let ?obj = "apply_update_data (supplied_update_data member_data) old"
  let ?upd = "map (\<lambda>r. if m_id r = member_id then ?obj else r) (txn s)"
  note res = update_member_succeeds [OF fl old hn he hp u]
  from find_Some_id [OF old] have id: "m_id old = member_id" .
  have fu: "find (\<lambda>m. m_id m = member_id) ?upd = Some ?obj"
    using find_map_replace [of ?obj member_id "txn s"] old id by simp
  have 1: "r = Inr ?obj" by (rule res(1))
  have 2: "find (\<lambda>m. m_id m = member_id) (db s') = Some ?obj" using res(2) fu by simp
  have 3: "\<forall>e ve. u_email member_data = Some e \<and> validate_email (PyStr e) = Inr ve \<longrightarrow> m_email ?obj = ve"
    by (simp add: apply_update_data_fields supplied_update_data_def)
  have 4: "\<forall>p vp. u_phone member_data = Some p \<and> validate_phone (PyStr p) = Inr vp \<longrightarrow> m_phone ?obj = vp"
    by (simp add: apply_update_data_fields supplied_update_data_def)
  from 1 2 3 4 show ?thesis by blast
qed

text \<open>C6 at an update that gives the example member its own email and its own phone.\<close>

theorem update_member_excludes_own_row_witness:
  "fst (update_member example_session 1
          \<lparr>u_name = None, u_email = Some ''JOHN@example.com'', u_phone = Some ''+1-234-567-8901''\<rparr>)
     = Inr example_member
   \<and> m_email example_member = ''john@example.com''
   \<and> m_phone example_member = Some ''+1-234-567-8901''"
proof -
  let ?d = "\<lparr>u_name = None, u_email = Some ''JOHN@example.com'', u_phone = Some ''+1-234-567-8901''\<rparr>"
  let ?r = "fst (update_member example_session 1 ?d)"
  let ?s' = "snd (update_member example_session 1 ?d)"
  have ve: "validate_email (PyStr ''JOHN@example.com'') = Inr ''john@example.com''" by code_simp
  have vp: "validate_phone (PyStr ''+1-234-567-8901'') = Inr (Some ''+1-234-567-8901'')" by code_simp
  have h: "update_member example_session 1 ?d = (?r, ?s')
   \<and> faults example_session = [] \<and> find (\<lambda>m. m_id m = 1) (txn example_session) = Some example_member
   \<and> (\<forall>n. u_name ?d = Some n \<longrightarrow> (\<exists>vn. validate_name (PyStr n) = Inr vn))
   \<and> (\<forall>e. u_email ?d = Some e \<longrightarrow>
         (\<exists>ve. validate_email (PyStr e) = Inr ve
              \<and> (\<forall>x\<in>set (txn example_session). m_email x = ve \<longrightarrow> m_id x = 1)))
   \<and> (\<forall>p. u_phone ?d = Some p \<longrightarrow>
         (\<exists>vp. validate_phone (PyStr p) = Inr vp
              \<and> (\<forall>x\<in>set (txn example_session). vp \<noteq> None \<and> m_phone x = vp \<longrightarrow> m_id x = 1)))"
    using ve vp by (simp add: example_session_def example_member_def)
  from update_member_excludes_own_row [OF h] obtain m where
    m: "?r = Inr m" "\<forall>e ve. u_email ?d = Some e \<and> validate_email (PyStr e) = Inr ve \<longrightarrow> m_email m = ve"
      "\<forall>p vp. u_phone ?d = Some p \<and> validate_phone (PyStr p) = Inr vp \<longrightarrow> m_phone m = vp"
    by blast
  have r: "?r = Inr example_member" by code_simp
  with m(1) have "m = example_member" by simp
  with m(2,3) ve vp r show ?thesis by simp
qed

text \<open>
  C10: for a member that exists, a successful \<open>update_member\<close> leaves the phone as
  it was when the payload has no phone, and sets it to absent when the payload has an
  empty or blank phone; a phone that was present is absent afterwards only when the
  payload had an empty or blank phone; the member returned is the one stored. On a store
  that does not fail, an update that supplies only an empty or blank phone succeeds and
  returns the member without its phone.
\<close>

theorem update_member_clears_phone_on_blank_only:
  "update_member s member_id member_data = (r, s')
     \<and> find (\<lambda>m. m_id m = member_id) (txn s) = Some old \<Longrightarrow>
   (\<forall>m. r = Inr m \<longrightarrow>
      (u_phone member_data = None \<longrightarrow> m_phone m = m_phone old)
      \<and> (\<forall>w. u_phone member_data = Some w \<and> py_strip w = [] \<longrightarrow> m_phone m = None)
      \<and> (m_phone old \<noteq> None \<and> m_phone m = None
           \<longrightarrow> (\<exists>w. u_phone member_data = Some w \<and> py_strip w = []))
      \<and> find (\<lambda>m. m_id m = member_id) (db s') = Some m)
   \<and> (faults s = [] \<and> u_name member_data = None \<and> u_email member_data = None
        \<and> (\<exists>w. u_phone member_data = Some w \<and> py_strip w = [])
      \<longrightarrow> r = Inr (old\<lparr>m_phone := None\<rparr>))"
proof -
  assume a: "update_member s member_id member_data = (r, s')
     \<and> find (\<lambda>m. m_id m = member_id) (txn s) = Some old"
  then have u: "update_member s member_id member_data = (r, s')"
    and old: "find (\<lambda>m. m_id m = member_id) (txn s) = Some old" by blast+
  let ?ud = "supplied_update_data member_data"
  let ?obj = "apply_update_data ?ud old"
  let ?upd = "map (\<lambda>r. if m_id r = member_id then ?obj else r) (txn s)"
  from find_Some_id [OF old] have id: "m_id old = member_id" .
  have fu: "find (\<lambda>m. m_id m = member_id) ?upd = Some ?obj"
    using find_map_replace [of ?obj member_id "txn s"] old id by simp
  have p1: "u_phone member_data = None \<longrightarrow> m_phone ?obj = m_phone old"
    by (simp add: apply_update_data_fields)
  have p2: "\<forall>w. u_phone member_data = Some w \<and> py_strip w = [] \<longrightarrow> m_phone ?obj = None"
  proof (intro allI impI)
    fix w assume h: "u_phone member_data = Some w \<and> py_strip w = []"
    then have "validate_phone (PyStr w) = Inr None" by (simp add: validate_phone_blank)
    with h show "m_phone ?obj = None"
      by (simp add: apply_update_data_fields supplied_update_data_def)
  qed
  have p3: "m_phone old \<noteq> None \<and> m_phone ?obj = None
           \<longrightarrow> (\<exists>w. u_phone member_data = Some w \<and> py_strip w = [])"
  proof
    assume h: "m_phone old \<noteq> None \<and> m_phone ?obj = None"
    show "\<exists>w. u_phone member_data = Some w \<and> py_strip w = []"
    proof (cases "u_phone member_data")
      case None
      with h show ?thesis by (auto simp: apply_update_data_fields)
    next
      case (Some w)
      show ?thesis
      proof (cases "validate_phone (PyStr w)")
        case (Inl x)
        with Some h show ?thesis
          by (auto simp: apply_update_data_fields supplied_update_data_def)
      next
        case (Inr vp)
        with Some h have "vp = None"
          by (auto simp: apply_update_data_fields supplied_update_data_def)
        with Inr have "py_strip w = []" by (simp add: validate_phone_blank)
        with Some show ?thesis by simp
      qed
    qed
  qed
  have A: "\<forall>m. r = Inr m \<longrightarrow>
      (u_phone member_data = None \<longrightarrow> m_phone m = m_phone old)
      \<and> (\<forall>w. u_phone member_data = Some w \<and> py_strip w = [] \<longrightarrow> m_phone m = None)
      \<and> (m_phone old \<noteq> None \<and> m_phone m = None
           \<longrightarrow> (\<exists>w. u_phone member_data = Some w \<and> py_strip w = []))
      \<and> find (\<lambda>m. m_id m = member_id) (db s') = Some m"
  proof (intro allI impI)
    fix m assume m: "r = Inr m"
    from update_member_outcome(3) [OF u m] old have mo: "m = ?obj" and d: "db s' = ?upd" by auto
    from p1 p2 p3 fu show "(u_phone member_data = None \<longrightarrow> m_phone m = m_phone old)
      \<and> (\<forall>w. u_phone member_data = Some w \<and> py_strip w = [] \<longrightarrow> m_phone m = None)
      \<and> (m_phone old \<noteq> None \<and> m_phone m = None
           \<longrightarrow> (\<exists>w. u_phone member_data = Some w \<and> py_strip w = []))
      \<and> find (\<lambda>m. m_id m = member_id) (db s') = Some m"
      unfolding mo d by (intro conjI)
  qed
  have B: "faults s = [] \<and> u_name member_data = None \<and> u_email member_data = None
        \<and> (\<exists>w. u_phone member_data = Some w \<and> py_strip w = [])
      \<longrightarrow> r = Inr (old\<lparr>m_phone := None\<rparr>)"
  proof
    assume h: "faults s = [] \<and> u_name member_data = None \<and> u_email member_data = None
        \<and> (\<exists>w. u_phone member_data = Some w \<and> py_strip w = [])"
    then obtain w where w: "u_phone member_data = Some w" "py_strip w = []" by blast
    from h have fl: "faults s = []" and n: "u_name member_data = None" and e: "u_email member_data = None"
      by blast+
    from w(2) have vp: "validate_phone (PyStr w) = Inr None" by (simp add: validate_phone_blank)
    have hn: "\<forall>n. u_name member_data = Some n \<longrightarrow> (\<exists>vn. validate_name (PyStr n) = Inr vn)"
      using n by simp
    have he: "\<forall>e. u_email member_data = Some e \<longrightarrow>
         (\<exists>ve. validate_email (PyStr e) = Inr ve
              \<and> (\<forall>x\<in>set (txn s). m_email x = ve \<longrightarrow> m_id x = member_id))"
      using e by simp
    have hp: "\<forall>p. u_phone member_data = Some p \<longrightarrow>
         (\<exists>vp. validate_phone (PyStr p) = Inr vp
              \<and> (\<forall>x\<in>set (txn s). vp \<noteq> None \<and> m_phone x = vp \<longrightarrow> m_id x = member_id))"
      using w vp by simp
    have "?obj = old\<lparr>m_phone := None\<rparr>"
      using n e w vp by (simp add: apply_update_data_def supplied_update_data_def)
    with update_member_succeeds(1) [OF fl old hn he hp u] show "r = Inr (old\<lparr>m_phone := None\<rparr>)"
      by simp
  qed
  from A B show ?thesis by (rule conjI)
qed

text \<open>C10 at an update of the example member whose payload has a blank phone only.\<close>

theorem update_member_clears_phone_on_blank_only_witness:
  "fst (update_member example_session 1 \<lparr>u_name = None, u_email = None, u_phone = Some ''  ''\<rparr>)
     = Inr (example_member\<lparr>m_phone := None\<rparr>)
   \<and> find (\<lambda>m. m_id m = 1)
        (db (snd (update_member example_session 1 \<lparr>u_name = None, u_email = None, u_phone = Some ''  ''\<rparr>)))
     = Some (example_member\<lparr>m_phone := None\<rparr>)
   \<and> m_phone (example_member\<lparr>m_phone := None\<rparr>) = None
   \<and> m_phone example_member = Some ''+1-234-567-8901''"
proof -
  let ?d = "\<lparr>u_name = None, u_email = None, u_phone = Some ''  ''\<rparr>"
  let ?r = "fst (update_member example_session 1 ?d)"
  let ?s' = "snd (update_member example_session 1 ?d)"
  have b: "py_strip ''  '' = []" by code_simp
  have h: "update_member example_session 1 ?d = (?r, ?s')
     \<and> find (\<lambda>m. m_id m = 1) (txn example_session) = Some example_member"
    by (simp add: example_session_def example_member_def)
  have fl: "faults example_session = []" by (simp add: example_session_def)
  note t = update_member_clears_phone_on_blank_only [OF h]
  from t b fl have r: "?r = Inr (example_member\<lparr>m_phone := None\<rparr>)" by simp
  with t have "find (\<lambda>m. m_id m = 1) (db ?s') = Some (example_member\<lparr>m_phone := None\<rparr>)" by blast
  with r show ?thesis by (simp add: example_member_def)
qed

end
